theory Spec2Isabelle
  imports Main "HOL-Library.Word" "HOL-Library.AList"
begin

section \<open>Go values\<close>

text \<open>
  The codec of \<^verbatim>\<open>binding/format/avro/v2/avro.go\<close> moves values of type \<^verbatim>\<open>any\<close>
  between an event and an Avro record and decides what to do by a type switch on the
  dynamic type. A value of type \<^verbatim>\<open>any\<close> is therefore a tagged union: one constructor per
  dynamic type that the source names or that a claim speaks of, and \<open>VOther\<close> for every
  other type, carrying the name that \<^verbatim>\<open>%T\<close> prints.
\<close>

type_synonym byte = "8 word"

text \<open>A \<^verbatim>\<open>[]byte\<close>: \<open>None\<close> is the nil slice, \<open>Some []\<close> the empty one.\<close>

type_synonym bytes = "byte list option"

text \<open>
  \<^verbatim>\<open>time.Time\<close>: an instant (seconds and nanoseconds since Go's zero instant) together
  with a location pointer (\<open>None\<close> is nil, that is UTC). Go's \<^verbatim>\<open>==\<close> compares all
  fields, \<^verbatim>\<open>Equal\<close> only the instant.
\<close>

record stdtime =
  sec :: int
  nsec :: nat
  loc :: "string option"

definition zeroTime :: stdtime where
  "zeroTime = \<lparr>sec = 0, nsec = 0, loc = None\<rparr>"

definition Equal :: "stdtime \<Rightarrow> stdtime \<Rightarrow> bool" where
  "Equal t u = (sec t = sec u \<and> nsec t = nsec u)"

text \<open>\<^verbatim>\<open>url.URL\<close>, as much of it as the tests build.\<close>

record URL =
  Scheme :: string
  Host :: string
  Path :: string

datatype go_value =
    VNil
  | VBool bool
  | VInt "64 word"
  | VInt8 "8 word"
  | VInt16 "16 word"
  | VInt32 "32 word"
  | VInt64 "64 word"
  | VFloat64 "64 word"
  | VString string
  | VBytes bytes
  | VURI URL
  | VURIRef URL
  | VTimestamp stdtime
  | VMap "(string \<times> go_value) list"
  | VOther string

text \<open>
  \<open>VInt\<close> is Go's \<^verbatim>\<open>int\<close> on a 64-bit platform. \<open>VFloat64\<close> carries the IEEE bits: the
  codec never computes with a float, it only looks at the type. \<open>VMap\<close> is a
  \<^verbatim>\<open>map[string]any\<close> as an association list, read with \<open>map_of\<close>.
\<close>

text \<open>What \<^verbatim>\<open>%T\<close> prints for a value.\<close>

fun type_name :: "go_value \<Rightarrow> string" where
  "type_name VNil = ''<nil>''"
| "type_name (VBool _) = ''bool''"
| "type_name (VInt _) = ''int''"
| "type_name (VInt8 _) = ''int8''"
| "type_name (VInt16 _) = ''int16''"
| "type_name (VInt32 _) = ''int32''"
| "type_name (VInt64 _) = ''int64''"
| "type_name (VFloat64 _) = ''float64''"
| "type_name (VString _) = ''string''"
| "type_name (VBytes _) = ''[]uint8''"
| "type_name (VURI _) = ''types.URI''"
| "type_name (VURIRef _) = ''types.URIRef''"
| "type_name (VTimestamp _) = ''types.Timestamp''"
| "type_name (VMap _) = ''map[string]interface {}''"
| "type_name (VOther n) = n"

text \<open>\<^verbatim>\<open>[]byte(s)\<close>: a Go string is its bytes.\<close>

definition bytes_of_string :: "string \<Rightarrow> byte list" where
  "bytes_of_string s = map (\<lambda>c. of_nat (of_char c)) s"

section \<open>Errors\<close>

text \<open>
  Every \<^verbatim>\<open>fmt.Errorf\<close> of the source is a constructor; \<open>message\<close> is the text that
  \<^verbatim>\<open>Error()\<close> returns, with \<^verbatim>\<open>%w\<close> replaced by the message of the wrapped error.
  \<open>LibraryError\<close> is an error of a collaborator (the schema engine, \<^verbatim>\<open>time.Parse\<close>,
  \<^verbatim>\<open>json.Marshal\<close>, \<^verbatim>\<open>types.Validate\<close>, a schema registry), known by its message only.
\<close>

datatype error =
    LibraryError string
  | UnsupportedAttributeType string
  | ExtensionEncodeError string error
  | TimeParseError error
  | ExtensionConvertError string error
  | MarshalMapDataError error
  | NoSchemaAvailable string
  | SchemaForEncodingError error
  | SchemaForDecodingError error
  | UnmarshalDataError error

fun message :: "error \<Rightarrow> string" where
  "message (LibraryError m) = m"
| "message (UnsupportedAttributeType t) = ''unsupported attribute type: '' @ t"
| "message (ExtensionEncodeError name err) =
     ''failed to encode extension attribute '' @ name @ '': '' @ message err"
| "message (TimeParseError err) = ''failed to parse time attribute: '' @ message err"
| "message (ExtensionConvertError name err) =
     ''failed to convert extension '' @ name @ '': '' @ message err"
| "message (MarshalMapDataError err) = ''failed to marshal map data: '' @ message err"
| "message (NoSchemaAvailable t) =
     ''no schema available for type '' @ t @
     '': implement SchemaProvider interface or set a SchemaRegistry''"
| "message (SchemaForEncodingError err) = ''failed to get schema for encoding: '' @ message err"
| "message (SchemaForDecodingError err) = ''failed to get schema for decoding: '' @ message err"
| "message (UnmarshalDataError err) = ''failed to unmarshal Avro data: '' @ message err"

section \<open>The Avro record and the collaborators\<close>

text \<open>
  \<^verbatim>\<open>schema.CloudEventRecord\<close>. \<open>Attribute\<close> is a Go map: an association list whose
  order stands for the order in which \<^verbatim>\<open>range\<close> happens to visit the entries, which Go
  leaves unspecified. A theorem about every list with the same entries is a theorem
  about every iteration order.
\<close>

record CloudEventRecord =
  Attribute :: "(string \<times> go_value) list"
  Data :: go_value

text \<open>
  The functions the codec calls and that are not part of it: the SDK's
  \<^verbatim>\<open>types.Validate\<close>, the standard library's time formatting and parsing with the two
  layouts the source uses, \<^verbatim>\<open>String\<close> of a URI, \<^verbatim>\<open>json.Marshal\<close> of a map, and the
  schema engine's \<^verbatim>\<open>avro.Marshal\<close> and \<^verbatim>\<open>avro.Unmarshal\<close> at the envelope schema. They
  are parameters of the model: a theorem holds for whatever they compute, or says what
  it needs of them.
\<close>

record lib =
  types_Validate :: "go_value \<Rightarrow> error + go_value"
  time_Format :: "stdtime \<Rightarrow> string"
  time_Parse_Nano :: "string \<Rightarrow> error + stdtime"
  time_Parse :: "string \<Rightarrow> error + stdtime"
  url_String :: "URL \<Rightarrow> string"
  json_Marshal :: "(string \<times> go_value) list \<Rightarrow> error + byte list"
  avro_Marshal :: "CloudEventRecord \<Rightarrow> error + bytes"
  avro_Unmarshal :: "bytes \<Rightarrow> error + CloudEventRecord"

section \<open>The event\<close>

text \<open>
  Modelled from the spec: the package \<^verbatim>\<open>event\<close> of the SDK is not among the sources. The
  spec's Structured Event is "an envelope holding a small set of required string
  metadata (specification-version, identifier, source, type), optional metadata
  (content-type, schema-reference, subject, timestamp), an open-ended mapping from
  extension-name to a dynamically-typed scalar value, and an opaque payload". The
  getters the codec calls (\<^verbatim>\<open>e.ID()\<close>, \<^verbatim>\<open>e.Time()\<close>, \<^verbatim>\<open>e.Extensions()\<close>, ...) read the
  field of the same name; \<^verbatim>\<open>e.Data()\<close> reads \<open>DataEncoded\<close>. An unset optional string is
  the empty string and an unset timestamp is \<open>zeroTime\<close>, which is what the source's
  tests \<^verbatim>\<open>!= ""\<close> and \<^verbatim>\<open>!= zeroTime\<close> look for. \<open>Extensions\<close> is a Go map and, like
  \<open>Attribute\<close>, an association list in iteration order.
\<close>

record event =
  SpecVersion :: string
  ID :: string
  Source :: string
  Type :: string
  DataContentType :: string
  DataSchema :: string
  Subject :: string
  Time :: stdtime
  Extensions :: "(string \<times> go_value) list"
  DataEncoded :: bytes

text \<open>
  Modelled from the spec: \<^verbatim>\<open>event.New()\<close>, a fresh event with nothing populated. Its
  specification version is 1.0, as \<^verbatim>\<open>TestToAvroAndFromAvro\<close> reads it from an event on
  which no version was set.
\<close>

definition New :: event where
  "New = \<lparr>SpecVersion = ''1.0'', ID = '''', Source = '''', Type = '''',
          DataContentType = '''', DataSchema = '''', Subject = '''', Time = zeroTime,
          Extensions = [], DataEncoded = None\<rparr>"

text \<open>
  Modelled from the spec: the setters of the event, which "populate" the field they
  name. Each stores its argument; \<open>SetExtension\<close> stores under the given name.
\<close>

definition SetSpecVersion :: "string \<Rightarrow> event \<Rightarrow> event" where
  "SetSpecVersion v e = e\<lparr>SpecVersion := v\<rparr>"

definition SetID :: "string \<Rightarrow> event \<Rightarrow> event" where
  "SetID v e = e\<lparr>ID := v\<rparr>"

definition SetSource :: "string \<Rightarrow> event \<Rightarrow> event" where
  "SetSource v e = e\<lparr>Source := v\<rparr>"

definition SetType :: "string \<Rightarrow> event \<Rightarrow> event" where
  "SetType v e = e\<lparr>Type := v\<rparr>"

definition SetDataContentType :: "string \<Rightarrow> event \<Rightarrow> event" where
  "SetDataContentType v e = e\<lparr>DataContentType := v\<rparr>"

definition SetDataSchema :: "string \<Rightarrow> event \<Rightarrow> event" where
  "SetDataSchema v e = e\<lparr>DataSchema := v\<rparr>"

definition SetSubject :: "string \<Rightarrow> event \<Rightarrow> event" where
  "SetSubject v e = e\<lparr>Subject := v\<rparr>"

definition SetTime :: "stdtime \<Rightarrow> event \<Rightarrow> event" where
  "SetTime t e = e\<lparr>Time := t\<rparr>"

definition SetExtension :: "string \<Rightarrow> go_value \<Rightarrow> event \<Rightarrow> event" where
  "SetExtension name v e = e\<lparr>Extensions := AList.update name v (Extensions e)\<rparr>"

section \<open>The envelope codec: avro.go\<close>

subsection \<open>Attribute keys\<close>

definition datacontenttype :: string where "datacontenttype = ''datacontenttype''"
definition dataschema :: string where "dataschema = ''dataschema''"
definition subject :: string where "subject = ''subject''"
definition time :: string where "time = ''time''"
definition specversion :: string where "specversion = ''specversion''"
definition id_key :: string where "id_key = ''id''"
definition source :: string where "source = ''source''"
definition typ_key :: string where "typ_key = ''type''"

text \<open>
  \<open>id_key\<close> and \<open>typ_key\<close> are the source's constants \<^verbatim>\<open>id\<close> and \<^verbatim>\<open>typ\<close>, names that
  Isabelle has taken.
\<close>

text \<open>The eight names that are attributes of the envelope itself.\<close>

definition required_names :: "string set" where
  "required_names = {specversion, id_key, source, typ_key}"

definition optional_names :: "string set" where
  "optional_names = {datacontenttype, dataschema, subject, time}"

definition reserved_names :: "string set" where
  "reserved_names = required_names \<union> optional_names"

definition ApplicationCloudEventsAvro :: string where
  "ApplicationCloudEventsAvro = ''application/cloudevents+avro''"

subsection \<open>Encoding\<close>

text \<open>\<^verbatim>\<open>record.Attribute[name] = v\<close>.\<close>

definition set_attribute :: "string \<Rightarrow> go_value \<Rightarrow> CloudEventRecord \<Rightarrow> CloudEventRecord" where
  "set_attribute name v r = r\<lparr>Attribute := AList.update name v (Attribute r)\<rparr>"

text \<open>
  \<open>attributeValueFor\<close>: validate, then switch on the type of the validated value. The
  error of the default case prints the type of the value as it was passed in.
\<close>

definition attributeValueFor :: "lib \<Rightarrow> go_value \<Rightarrow> error + go_value" where
  "attributeValueFor l v =
     (case types_Validate l v of
        Inl err \<Rightarrow> Inl err
      | Inr vv \<Rightarrow>
          (case vv of
             VBool vt \<Rightarrow> Inr (VBool vt)
           | VInt32 vt \<Rightarrow> Inr (VInt (scast vt))
           | VString vt \<Rightarrow> Inr (VString vt)
           | VBytes vt \<Rightarrow> Inr (VBytes vt)
           | VURI vt \<Rightarrow> Inr (VString (url_String l vt))
           | VURIRef vt \<Rightarrow> Inr (VString (url_String l vt))
           | VTimestamp vt \<Rightarrow> Inr (VString (time_Format l vt))
           | _ \<Rightarrow> Inl (UnsupportedAttributeType (type_name v))))"

text \<open>The loop of \<open>ToAvro\<close> over \<^verbatim>\<open>e.Extensions()\<close>: the first failure returns.\<close>

fun encode_extensions ::
  "lib \<Rightarrow> (string \<times> go_value) list \<Rightarrow> CloudEventRecord \<Rightarrow> error + CloudEventRecord" where
  "encode_extensions l [] r = Inr r"
| "encode_extensions l ((name, v) # rest) r =
     (case attributeValueFor l v of
        Inl err \<Rightarrow> Inl (ExtensionEncodeError name err)
      | Inr attrValue \<Rightarrow> encode_extensions l rest (set_attribute name attrValue r))"

text \<open>The record after the required and the optional attributes are written.\<close>

definition encode_attributes :: "lib \<Rightarrow> event \<Rightarrow> CloudEventRecord" where
  "encode_attributes l e =
     (let r = \<lparr>Attribute = [], Data = VNil\<rparr>;
          r = set_attribute specversion (VString (SpecVersion e)) r;
          r = set_attribute id_key (VString (ID e)) r;
          r = set_attribute source (VString (Source e)) r;
          r = set_attribute typ_key (VString (Type e)) r;
          r = (if DataContentType e \<noteq> '''' then
                 set_attribute datacontenttype (VString (DataContentType e)) r else r);
          r = (if DataSchema e \<noteq> '''' then
                 set_attribute dataschema (VString (DataSchema e)) r else r);
          r = (if Subject e \<noteq> '''' then
                 set_attribute subject (VString (Subject e)) r else r);
          r = (if Time e \<noteq> zeroTime then
                 set_attribute time (VString (time_Format l (Time e))) r else r)
      in r)"

definition ToAvro :: "lib \<Rightarrow> event \<Rightarrow> error + CloudEventRecord" where
  "ToAvro l e =
     (case encode_extensions l (Extensions e) (encode_attributes l e) of
        Inl err \<Rightarrow> Inl err
      | Inr r \<Rightarrow>
          (case DataEncoded e of
             None \<Rightarrow> Inr r
           | Some d \<Rightarrow> Inr (r\<lparr>Data := VBytes (Some d)\<rparr>)))"

subsection \<open>Decoding\<close>

definition extensionValueFrom :: "go_value \<Rightarrow> error + go_value" where
  "extensionValueFrom v =
     (case v of
        VNil \<Rightarrow> Inr VNil
      | VBool vt \<Rightarrow> Inr (VBool vt)
      | VInt vt \<Rightarrow> Inr (VInt32 (ucast vt))
      | VInt32 vt \<Rightarrow> Inr (VInt32 vt)
      | VInt64 vt \<Rightarrow> Inr (VInt32 (ucast vt))
      | VString vt \<Rightarrow> Inr (VString vt)
      | VBytes vt \<Rightarrow> Inr (VBytes vt)
      | _ \<Rightarrow> Inl (UnsupportedAttributeType (type_name v)))"

text \<open>
  The four lookups at the head of \<open>FromAvro\<close>: a required attribute is taken when the
  key is there and its value is a string.
\<close>

definition decode_required :: "(string \<times> go_value) list \<Rightarrow> event \<Rightarrow> event" where
  "decode_required attrs e =
     (let e = (case map_of attrs specversion of Some (VString sv) \<Rightarrow> SetSpecVersion sv e | _ \<Rightarrow> e);
          e = (case map_of attrs id_key of Some (VString sv) \<Rightarrow> SetID sv e | _ \<Rightarrow> e);
          e = (case map_of attrs source of Some (VString sv) \<Rightarrow> SetSource sv e | _ \<Rightarrow> e);
          e = (case map_of attrs typ_key of Some (VString sv) \<Rightarrow> SetType sv e | _ \<Rightarrow> e)
      in e)"

text \<open>
  The two calls of \<^verbatim>\<open>time.Parse\<close> under the key \<^verbatim>\<open>time\<close>: the nanosecond layout first,
  the plain one if that fails, and the error of the second wrapped if both fail.
\<close>

definition parse_time :: "lib \<Rightarrow> string \<Rightarrow> error + stdtime" where
  "parse_time l sv =
     (case time_Parse_Nano l sv of
        Inr t \<Rightarrow> Inr t
      | Inl _ \<Rightarrow>
          (case time_Parse l sv of
             Inr t \<Rightarrow> Inr t
           | Inl err \<Rightarrow> Inl (TimeParseError err)))"

text \<open>The body of the loop over \<^verbatim>\<open>record.Attribute\<close>, for one entry.\<close>

definition decode_attribute :: "lib \<Rightarrow> string \<times> go_value \<Rightarrow> event \<Rightarrow> error + event" where
  "decode_attribute l a e =
     (let name = fst a; v = snd a in
      if name = specversion \<or> name = id_key \<or> name = source \<or> name = typ_key then Inr e
      else if name = datacontenttype then
        (case v of VString sv \<Rightarrow> Inr (SetDataContentType sv e) | _ \<Rightarrow> Inr e)
      else if name = dataschema then
        (case v of VString sv \<Rightarrow> Inr (SetDataSchema sv e) | _ \<Rightarrow> Inr e)
      else if name = subject then
        (case v of VString sv \<Rightarrow> Inr (SetSubject sv e) | _ \<Rightarrow> Inr e)
      else if name = time then
        (case v of
           VString sv \<Rightarrow>
             (case parse_time l sv of
                Inl err \<Rightarrow> Inl err
              | Inr t \<Rightarrow> Inr (SetTime t e))
         | _ \<Rightarrow> Inr e)
      else
        (case extensionValueFrom v of
           Inl err \<Rightarrow> Inl (ExtensionConvertError name err)
         | Inr extValue \<Rightarrow> Inr (SetExtension name extValue e)))"

fun decode_attributes ::
  "lib \<Rightarrow> (string \<times> go_value) list \<Rightarrow> event \<Rightarrow> error + event" where
  "decode_attributes l [] e = Inr e"
| "decode_attributes l (a # rest) e =
     (case decode_attribute l a e of
        Inl err \<Rightarrow> Inl err
      | Inr e' \<Rightarrow> decode_attributes l rest e')"

text \<open>The switch on \<^verbatim>\<open>record.Data\<close> at the end of \<open>FromAvro\<close>.\<close>

definition decode_data :: "lib \<Rightarrow> go_value \<Rightarrow> event \<Rightarrow> error + event" where
  "decode_data l d e =
     (case d of
        VBytes b \<Rightarrow> Inr (e\<lparr>DataEncoded := b\<rparr>)
      | VString s \<Rightarrow> Inr (e\<lparr>DataEncoded := Some (bytes_of_string s)\<rparr>)
      | VMap m \<Rightarrow>
          (case map_of m ''bytes'' of
             Some (VBytes b) \<Rightarrow> Inr (e\<lparr>DataEncoded := b\<rparr>)
           | _ \<Rightarrow>
               (case map_of m ''string'' of
                  Some (VString str) \<Rightarrow> Inr (e\<lparr>DataEncoded := Some (bytes_of_string str)\<rparr>)
                | _ \<Rightarrow>
                    (case json_Marshal l m of
                       Inl err \<Rightarrow> Inl (MarshalMapDataError err)
                     | Inr jsonBytes \<Rightarrow> Inr (e\<lparr>DataEncoded := Some jsonBytes\<rparr>))))
      | _ \<Rightarrow> Inr e)"

definition FromAvro :: "lib \<Rightarrow> CloudEventRecord \<Rightarrow> error + event" where
  "FromAvro l r =
     (case decode_attributes l (Attribute r) (decode_required (Attribute r) New) of
        Inl err \<Rightarrow> Inl err
      | Inr e \<Rightarrow> decode_data l (Data r) e)"

subsection \<open>The format: Marshal and Unmarshal\<close>

definition MediaType :: string where
  "MediaType = ApplicationCloudEventsAvro"

definition Marshal :: "lib \<Rightarrow> event \<Rightarrow> error + bytes" where
  "Marshal l e = (case ToAvro l e of Inl err \<Rightarrow> Inl err | Inr r \<Rightarrow> avro_Marshal l r)"

text \<open>
  \<open>Unmarshal\<close> writes through the pointer \<^verbatim>\<open>e\<close>: the model takes the event the pointer
  holds and returns the event it holds afterwards, with the error if there is one.
\<close>

definition Unmarshal :: "lib \<Rightarrow> bytes \<Rightarrow> event \<Rightarrow> event \<times> error option" where
  "Unmarshal l b e =
     (case avro_Unmarshal l b of
        Inl err \<Rightarrow> (e, Some err)
      | Inr r \<Rightarrow>
          (case FromAvro l r of
             Inl err \<Rightarrow> (e, Some err)
           | Inr e2 \<Rightarrow> (e2, None)))"

section \<open>The payload codec\<close>

text \<open>
  A value handed to the payload codec as \<^verbatim>\<open>interface{}\<close> is a byte slice or a value of
  some other dynamic type. Of the latter the codec reads the name that \<^verbatim>\<open>%T\<close> prints
  and whether the type implements \<^verbatim>\<open>SchemaProvider\<close>, in which case it calls
  \<^verbatim>\<open>AvroSchema\<close>. An \<^verbatim>\<open>avro.Schema\<close> is an interface value over the engine's schemas
  \<open>'s\<close>: \<open>None\<close> is nil.
\<close>

type_synonym 's Schema = "'s option"

record 's object =
  dyn_type :: string
  AvroSchema :: "'s Schema option"

datatype 's payload = Bytes bytes | Object "'s object"

text \<open>The type assertion \<^verbatim>\<open>v.(SchemaProvider)\<close>: a byte slice has no methods.\<close>

fun SchemaProvider :: "'s payload \<Rightarrow> 's Schema option" where
  "SchemaProvider (Bytes _) = None"
| "SchemaProvider (Object ob) = AvroSchema ob"

fun payload_type :: "'s payload \<Rightarrow> string" where
  "payload_type (Bytes _) = ''[]uint8''"
| "payload_type (Object ob) = dyn_type ob"

text \<open>
  \<^verbatim>\<open>SchemaRegistry\<close> is an interface with the one method \<^verbatim>\<open>GetSchema\<close>, which returns a
  pair: a registry may return a schema, an error, or neither, as the registry of the
  tests does for a type it does not know.
\<close>

type_synonym 's SchemaRegistry = "'s payload \<Rightarrow> 's Schema \<times> error option"

text \<open>The package variable \<^verbatim>\<open>defaultRegistry\<close>, nil until it is set.\<close>

record 's globals =
  defaultRegistry :: "'s SchemaRegistry option"

definition init_globals :: "'s globals" where
  "init_globals = \<lparr>defaultRegistry = None\<rparr>"

definition SetSchemaRegistry :: "'s SchemaRegistry option \<Rightarrow> 's globals \<Rightarrow> 's globals" where
  "SetSchemaRegistry r g = g\<lparr>defaultRegistry := r\<rparr>"

text \<open>
  \<open>getSchemaFor\<close>. The source's second assertion, \<^verbatim>\<open>interface{}(&v).(SchemaProvider)\<close>,
  asks whether a pointer to an interface variable has the method; such a pointer has no
  methods, so that branch is never taken and the model goes on to the registry.
\<close>

definition getSchemaFor :: "'s globals \<Rightarrow> 's payload \<Rightarrow> 's Schema \<times> error option" where
  "getSchemaFor g v =
     (case SchemaProvider v of
        Some s \<Rightarrow> (s, None)
      | None \<Rightarrow>
          (case defaultRegistry g of
             Some r \<Rightarrow> r v
           | None \<Rightarrow> (None, Some (NoSchemaAvailable (payload_type v)))))"

text \<open>
  \<open>EncodeData\<close> and \<open>DecodeData\<close>; the first argument is the schema engine's
  \<^verbatim>\<open>avro.Marshal\<close>, respectively \<^verbatim>\<open>avro.Unmarshal\<close>, which writes through \<^verbatim>\<open>out\<close>.
\<close>

definition EncodeData ::
  "('s Schema \<Rightarrow> 's payload \<Rightarrow> bytes \<times> error option) \<Rightarrow> 's globals \<Rightarrow> 's payload
     \<Rightarrow> bytes \<times> error option" where
  "EncodeData marshal g v =
     (case v of
        Bytes b \<Rightarrow> (b, None)
      | Object _ \<Rightarrow>
          (case getSchemaFor g v of
             (schema, Some err) \<Rightarrow> (None, Some (SchemaForEncodingError err))
           | (schema, None) \<Rightarrow> marshal schema v))"

definition DecodeData ::
  "('s Schema \<Rightarrow> bytes \<Rightarrow> 's payload \<Rightarrow> 's payload \<times> error option) \<Rightarrow> 's globals \<Rightarrow> bytes
     \<Rightarrow> 's payload \<Rightarrow> 's payload \<times> error option" where
  "DecodeData unmarshal g b out =
     (case getSchemaFor g out of
        (schema, Some err) \<Rightarrow> (out, Some (SchemaForDecodingError err))
      | (schema, None) \<Rightarrow>
          (case unmarshal schema b out of
             (out', Some err) \<Rightarrow> (out', Some (UnmarshalDataError err))
           | (out', None) \<Rightarrow> (out', None)))"

section \<open>Notions the properties are stated with\<close>

text \<open>
  The attribute types of an event, the seven cases of the switch in
  \<open>attributeValueFor\<close>: boolean, 32-bit integer, string, byte sequence, URI,
  URI-reference and timestamp.
\<close>

fun is_attribute_value :: "go_value \<Rightarrow> bool" where
  "is_attribute_value (VBool _) = True"
| "is_attribute_value (VInt32 _) = True"
| "is_attribute_value (VString _) = True"
| "is_attribute_value (VBytes _) = True"
| "is_attribute_value (VURI _) = True"
| "is_attribute_value (VURIRef _) = True"
| "is_attribute_value (VTimestamp _) = True"
| "is_attribute_value _ = False"

text \<open>
  An extension value after "one coercion round-trip", in the words of the spec: a URI
  or URI-reference is its string, a timestamp is its RFC 3339 text, and a boolean, a
  32-bit integer, a string and a byte sequence are themselves.
\<close>

fun coerced :: "lib \<Rightarrow> go_value \<Rightarrow> go_value" where
  "coerced l (VURI u) = VString (url_String l u)"
| "coerced l (VURIRef u) = VString (url_String l u)"
| "coerced l (VTimestamp t) = VString (time_Format l t)"
| "coerced l v = v"

fun is_string :: "go_value \<Rightarrow> bool" where
  "is_string (VString _) = True"
| "is_string _ = False"

text \<open>
  Whether the loop of \<open>FromAvro\<close> gets past an entry. It does not depend on the event
  decoded so far, so it is asked of the fresh one.
\<close>

definition decodes :: "lib \<Rightarrow> string \<times> go_value \<Rightarrow> bool" where
  "decodes l a = (case decode_attribute l a New of Inl _ \<Rightarrow> False | Inr _ \<Rightarrow> True)"

definition encodes :: "lib \<Rightarrow> go_value \<Rightarrow> bool" where
  "encodes l v = (case attributeValueFor l v of Inl _ \<Rightarrow> False | Inr _ \<Rightarrow> True)"

text \<open>
  The registry of the package's tests (\<^verbatim>\<open>TestSchemaRegistry\<close>): the schema of
  \<^verbatim>\<open>TestRecord\<close> for a \<^verbatim>\<open>TestRecord\<close> or a pointer to one, and \<^verbatim>\<open>nil, nil\<close> for every
  other value.
\<close>

definition TestSchemaRegistry :: "string SchemaRegistry" where
  "TestSchemaRegistry v =
     (if payload_type v = ''*avro_test.TestRecord'' \<or> payload_type v = ''avro_test.TestRecord''
      then (Some ''testRecordSchema'', None) else (None, None))"

section \<open>Concrete collaborators and sample values\<close>

text \<open>
  One choice of the collaborators on which the model runs, used wherever a theorem is
  instantiated: test doubles that know the values of the package's tests. Validation
  accepts the seven attribute types as they are, turns an \<^verbatim>\<open>int\<close> into an \<^verbatim>\<open>int32\<close> and
  rejects a \<^verbatim>\<open>nil\<close>; every other value is handed on unchanged, so that the default case
  of \<open>attributeValueFor\<close> can be reached. The time functions know the instant of
  \<^verbatim>\<open>TestToAvroAndFromAvro\<close>, 2020-12-25 01:01:01.000000001 UTC, and its text; the plain
  layout knows no fraction. The schema engine knows three byte strings and
  \<^verbatim>\<open>json.Marshal\<close> the empty map.
\<close>

definition sample_time :: stdtime where
  "sample_time = \<lparr>sec = 63744454861, nsec = 1, loc = None\<rparr>"

definition demo_Format :: "stdtime \<Rightarrow> string" where
  "demo_Format t =
     (if Equal t sample_time then ''2020-12-25T01:01:01.000000001Z''
      else ''0001-01-01T00:00:00Z'')"

definition demo_Parse_Nano :: "string \<Rightarrow> error + stdtime" where
  "demo_Parse_Nano s =
     (if s = ''2020-12-25T01:01:01.000000001Z'' then Inr sample_time
      else Inl (LibraryError ''cannot parse as RFC3339Nano''))"

definition demo_Parse :: "string \<Rightarrow> error + stdtime" where
  "demo_Parse s =
     (if s = ''2020-12-25T01:01:01Z'' then Inr \<lparr>sec = 63744454861, nsec = 0, loc = None\<rparr>
      else Inl (LibraryError ''cannot parse as RFC3339''))"

definition demo_Validate :: "go_value \<Rightarrow> error + go_value" where
  "demo_Validate v =
     (case v of
        VNil \<Rightarrow> Inl (LibraryError ''invalid CloudEvents value'')
      | VInt i \<Rightarrow> Inr (VInt32 (ucast i))
      | _ \<Rightarrow> Inr v)"

definition demo_url_String :: "URL \<Rightarrow> string" where
  "demo_url_String u = Scheme u @ ''://'' @ Host u @ Path u"

definition bad_time_record :: CloudEventRecord where
  "bad_time_record =
     \<lparr>Attribute = [(''id'', VString ''a''), (''time'', VString ''yesterday'')], Data = VNil\<rparr>"

definition float_record :: CloudEventRecord where
  "float_record =
     \<lparr>Attribute = [(''id'', VString ''a''), (''score'', VFloat64 3)], Data = VNil\<rparr>"

definition small_record :: CloudEventRecord where
  "small_record =
     \<lparr>Attribute = [(''id'', VString ''a''), (''subject'', VString ''s'')],
      Data = VString ''foo''\<rparr>"

definition demo_avro_Unmarshal :: "bytes \<Rightarrow> error + CloudEventRecord" where
  "demo_avro_Unmarshal b =
     (if b = Some [1] then Inr bad_time_record
      else if b = Some [2] then Inr float_record
      else if b = Some [3] then Inr small_record
      else Inl (LibraryError ''avro: unexpected end of input''))"

definition demo_json_Marshal :: "(string \<times> go_value) list \<Rightarrow> error + byte list" where
  "demo_json_Marshal m =
     (if m = [] then Inr (bytes_of_string ''{}'')
      else Inl (LibraryError ''json: unsupported type''))"

definition demo_lib :: lib where
  "demo_lib =
     \<lparr>types_Validate = demo_Validate,
      time_Format = demo_Format,
      time_Parse_Nano = demo_Parse_Nano,
      time_Parse = demo_Parse,
      url_String = demo_url_String,
      json_Marshal = demo_json_Marshal,
      avro_Marshal = (\<lambda>r. Inl (LibraryError ''no schema engine'')),
      avro_Unmarshal = demo_avro_Unmarshal\<rparr>"

text \<open>The event of \<^verbatim>\<open>TestToAvroAndFromAvro\<close>, with one extension of each attribute type.\<close>

definition sample_event :: event where
  "sample_event =
     New\<lparr>ID := ''test'', Source := ''test'', Type := ''test'',
         DataSchema := ''test'', Subject := ''test'', Time := sample_time,
         Extensions :=
           [(''test'', VString ''test''),
            (''int'', VInt32 1),
            (''bool'', VBool True),
            (''uri'', VURI \<lparr>Scheme = ''https'', Host = ''test-uri.com'', Path = ''''\<rparr>),
            (''uriref'', VURIRef \<lparr>Scheme = ''https'', Host = ''test-uriref.com'', Path = ''''\<rparr>),
            (''bytes'', VBytes (Some (bytes_of_string ''test''))),
            (''timestamp'', VTimestamp sample_time)],
         DataEncoded := Some (bytes_of_string ''foo'')\<rparr>"

text \<open>An event with nothing optional set, and one with an extension that is a float.\<close>

definition plain_event :: event where
  "plain_event = New\<lparr>ID := ''1'', Source := ''s'', Type := ''t''\<rparr>"


text \<open>The records that \<open>ToAvro\<close> makes of the two, and what \<open>FromAvro\<close> reads back.\<close>

definition plain_record :: CloudEventRecord where
  "plain_record =
     \<lparr>Attribute =
        [(''specversion'', VString ''1.0''), (''id'', VString ''1''),
         (''source'', VString ''s''), (''type'', VString ''t'')],
      Data = VNil\<rparr>"

definition sample_record :: CloudEventRecord where
  "sample_record =
     \<lparr>Attribute =
        [(''specversion'', VString ''1.0''), (''id'', VString ''test''),
         (''source'', VString ''test''), (''type'', VString ''test''),
         (''dataschema'', VString ''test''), (''subject'', VString ''test''),
         (''time'', VString ''2020-12-25T01:01:01.000000001Z''),
         (''test'', VString ''test''),
         (''int'', VInt 1),
         (''bool'', VBool True),
         (''uri'', VString ''https://test-uri.com''),
         (''uriref'', VString ''https://test-uriref.com''),
         (''bytes'', VBytes (Some (bytes_of_string ''test''))),
         (''timestamp'', VString ''2020-12-25T01:01:01.000000001Z'')],
      Data = VBytes (Some (bytes_of_string ''foo''))\<rparr>"

definition sample_decoded :: event where
  "sample_decoded =
     sample_event\<lparr>Extensions :=
       [(''test'', VString ''test''),
        (''int'', VInt32 1),
        (''bool'', VBool True),
        (''uri'', VString ''https://test-uri.com''),
        (''uriref'', VString ''https://test-uriref.com''),
        (''bytes'', VBytes (Some (bytes_of_string ''test''))),
        (''timestamp'', VString ''2020-12-25T01:01:01.000000001Z'')]\<rparr>"

text \<open>A record with one attribute and the given payload slot.\<close>

definition data_record :: "go_value \<Rightarrow> CloudEventRecord" where
  "data_record d = \<lparr>Attribute = [(''id'', VString ''a'')], Data = d\<rparr>"

section \<open>Further notions and sample values\<close>






text \<open>
  Whether the field that an attribute name stands for is as in a fresh event, that is,
  has not been populated. Names that are not attribute names have no field.
\<close>

definition field_as_new :: "string \<Rightarrow> event \<Rightarrow> bool" where
  "field_as_new name e =
     (if name = specversion then SpecVersion e = SpecVersion New
      else if name = id_key then ID e = ID New
      else if name = source then Source e = Source New
      else if name = typ_key then Type e = Type New
      else if name = datacontenttype then DataContentType e = DataContentType New
      else if name = dataschema then DataSchema e = DataSchema New
      else if name = subject then Subject e = Subject New
      else if name = time then Time e = Time New
      else True)"

text \<open>
  The source's \<^verbatim>\<open>if sv, ok := v.(string); ok { e.SetX(sv) }\<close> under
  \<^verbatim>\<open>if v, ok := record.Attribute[k]; ok\<close>, and its two assertions on the entries of a
  payload map, \<^verbatim>\<open>d["bytes"].([]byte)\<close> and \<^verbatim>\<open>d["string"].(string)\<close>, with \<open>None\<close> for
  \<^verbatim>\<open>ok = false\<close>.
\<close>

definition set_if_string :: "(string \<Rightarrow> event \<Rightarrow> event) \<Rightarrow> go_value option \<Rightarrow> event \<Rightarrow> event" where
  "set_if_string f m e = (case m of Some (VString sv) \<Rightarrow> f sv e | _ \<Rightarrow> e)"

definition wrapped_bytes :: "(string \<times> go_value) list \<Rightarrow> bytes option" where
  "wrapped_bytes m = (case map_of m ''bytes'' of Some (VBytes b) \<Rightarrow> Some b | _ \<Rightarrow> None)"

definition wrapped_string :: "(string \<times> go_value) list \<Rightarrow> string option" where
  "wrapped_string m = (case map_of m ''string'' of Some (VString s) \<Rightarrow> Some s | _ \<Rightarrow> None)"

text \<open>Records with a required and with optional attributes that are not strings.\<close>

definition odd_required_record :: CloudEventRecord where
  "odd_required_record =
     \<lparr>Attribute = [(''id'', VInt 7), (''source'', VString ''s''), (''x'', VBool True)],
      Data = VNil\<rparr>"

definition odd_optional_record :: CloudEventRecord where
  "odd_optional_record =
     \<lparr>Attribute = [(''id'', VString ''a''), (''subject'', VBool True), (''time'', VInt 5)],
      Data = VNil\<rparr>"

text \<open>
  The dynamic types that the switch of \<open>extensionValueFrom\<close> has a case for, nil
  included: \<^verbatim>\<open>bool\<close>, \<^verbatim>\<open>int\<close>, \<^verbatim>\<open>int32\<close>, \<^verbatim>\<open>int64\<close>, \<^verbatim>\<open>string\<close> and \<^verbatim>\<open>[]byte\<close>.
\<close>

fun is_wire_value :: "go_value \<Rightarrow> bool" where
  "is_wire_value VNil = True"
| "is_wire_value (VBool _) = True"
| "is_wire_value (VInt _) = True"
| "is_wire_value (VInt32 _) = True"
| "is_wire_value (VInt64 _) = True"
| "is_wire_value (VString _) = True"
| "is_wire_value (VBytes _) = True"
| "is_wire_value _ = False"




section \<open>Properties\<close>

subsection \<open>The payload codec\<close>

text \<open>
  Claim C7. For every byte slice, whatever the schema engine and whatever registry is
  or is not installed, \<open>EncodeData\<close> returns exactly the input bytes and no error. The
  schema engine \<open>marshal\<close> and the package state \<open>g\<close> are arbitrary: neither is consulted.
\<close>

theorem EncodeData_bytes:
  "EncodeData marshal g (Bytes b) = (b, None)"
  by (simp add: EncodeData_def)

text \<open>
  Claim C2, as the code has it. Schema resolution asks the value itself first: the
  schema of a \<open>SchemaProvider\<close> is returned whatever the registry. Failing that, if a
  registry has been installed with \<open>SetSchemaRegistry\<close>, the answer of the registry is
  returned as it is, be it a schema, an error of the registry's own, or neither. Only
  when no registry is installed (never set, or set to nil) does resolution fail with
  \<open>NoSchemaAvailable\<close>, whose message names the type of the value and tells the caller
  to implement \<open>SchemaProvider\<close> or set a \<open>SchemaRegistry\<close>.
\<close>

theorem getSchemaFor_order:
  "(SchemaProvider v = Some s \<longrightarrow> getSchemaFor (SetSchemaRegistry r g) v = (s, None)) \<and>
   (SchemaProvider v = None \<longrightarrow>
      getSchemaFor (SetSchemaRegistry (Some reg) g) v = reg v \<and>
      getSchemaFor (SetSchemaRegistry None g) v = (None, Some (NoSchemaAvailable (payload_type v))) \<and>
      getSchemaFor init_globals v = (None, Some (NoSchemaAvailable (payload_type v)))) \<and>
   message (NoSchemaAvailable (payload_type v)) =
     ''no schema available for type '' @ payload_type v @
     '': implement SchemaProvider interface or set a SchemaRegistry''"
  by (simp add: getSchemaFor_def SetSchemaRegistry_def init_globals_def)

theorem getSchemaFor_order_witness:
  "getSchemaFor (SetSchemaRegistry (Some TestSchemaRegistry) init_globals)
     (Object \<lparr>dyn_type = ''avro_test.Provider'', AvroSchema = Some (Some ''own'')\<rparr>) =
     (Some ''own'', None) \<and>
   getSchemaFor (SetSchemaRegistry (Some TestSchemaRegistry) init_globals)
     (Object \<lparr>dyn_type = ''*avro_test.TestRecord'', AvroSchema = None\<rparr>) =
     (Some ''testRecordSchema'', None) \<and>
   getSchemaFor (init_globals :: string globals)
     (Object \<lparr>dyn_type = ''avro_test.NoSchemaRecord'', AvroSchema = None\<rparr>) =
     (None, Some (NoSchemaAvailable ''avro_test.NoSchemaRecord'')) \<and>
   message (NoSchemaAvailable ''avro_test.NoSchemaRecord'') =
     ''no schema available for type avro_test.NoSchemaRecord: implement SchemaProvider interface or set a SchemaRegistry''"
  using getSchemaFor_order
    [of "Object \<lparr>dyn_type = ''avro_test.NoSchemaRecord'', AvroSchema = None\<rparr>" "None :: string option"
        "Some TestSchemaRegistry" "init_globals"]
  by (simp add: getSchemaFor_def SetSchemaRegistry_def init_globals_def TestSchemaRegistry_def)

text \<open>
  Against claim C2 as it is worded ("if neither yields a schema, the operation fails
  with a NoSchemaAvailable error"): with the registry of the package's tests installed,
  a value that describes no schema of its own and that the registry does not know
  resolves to no schema and no error.
\<close>

theorem getSchemaFor_counter:
  "getSchemaFor (SetSchemaRegistry (Some TestSchemaRegistry) init_globals)
     (Object \<lparr>dyn_type = ''*avro_test.NoSchemaRecord'', AvroSchema = None\<rparr>) = (None, None)"
  by (simp add: getSchemaFor_def SetSchemaRegistry_def init_globals_def TestSchemaRegistry_def)

subsection \<open>Evaluating the model\<close>

lemmas key_defs =
  specversion_def id_key_def source_def typ_key_def
  datacontenttype_def dataschema_def subject_def time_def

lemmas setter_defs =
  SetSpecVersion_def SetID_def SetSource_def SetType_def SetDataContentType_def
  SetDataSchema_def SetSubject_def SetTime_def SetExtension_def

lemmas demo_defs =
  demo_lib_def demo_Validate_def demo_Format_def demo_Parse_Nano_def demo_Parse_def
  demo_url_String_def demo_avro_Unmarshal_def demo_json_Marshal_def sample_time_def
  Equal_def zeroTime_def

lemmas encode_defs =
  ToAvro_def encode_attributes_def Let_def set_attribute_def attributeValueFor_def

lemmas decode_defs =
  FromAvro_def decode_required_def decode_attribute_def decode_data_def
  parse_time_def extensionValueFrom_def setter_defs Let_def

subsection \<open>Unmarshal\<close>

text \<open>
  Claim C9. If \<open>Unmarshal\<close> returns an error, the event behind the pointer is the one
  that was there before the call: this is so when the schema engine fails and when the
  conversion of the record fails (a time that does not parse, an extension of an
  unsupported type). The event is replaced only when the schema engine has produced a
  record and the whole conversion of that record has succeeded, and then by the result
  of the conversion.
\<close>

theorem Unmarshal_target:
  "(\<forall>e' err. Unmarshal l b e = (e', Some err) \<longrightarrow> e' = e) \<and>
   (\<forall>err. avro_Unmarshal l b = Inl err \<longrightarrow> Unmarshal l b e = (e, Some err)) \<and>
   (\<forall>r err. avro_Unmarshal l b = Inr r \<and> FromAvro l r = Inl err \<longrightarrow>
      Unmarshal l b e = (e, Some err)) \<and>
   (\<forall>e'. Unmarshal l b e = (e', None) \<longrightarrow>
      (\<exists>r. avro_Unmarshal l b = Inr r \<and> FromAvro l r = Inr e'))"
  by (auto simp: Unmarshal_def split: sum.splits)

theorem Unmarshal_target_witness:
  "Unmarshal demo_lib None sample_event =
     (sample_event, Some (LibraryError ''avro: unexpected end of input'')) \<and>
   Unmarshal demo_lib (Some [1]) sample_event =
     (sample_event, Some (TimeParseError (LibraryError ''cannot parse as RFC3339''))) \<and>
   Unmarshal demo_lib (Some [2]) sample_event =
     (sample_event, Some (ExtensionConvertError ''score'' (UnsupportedAttributeType ''float64''))) \<and>
   Unmarshal demo_lib (Some [3]) sample_event =
     (New\<lparr>ID := ''a'', Subject := ''s'', DataEncoded := Some (bytes_of_string ''foo'')\<rparr>, None) \<and>
   avro_Unmarshal demo_lib (Some [3]) = Inr small_record \<and>
   FromAvro demo_lib small_record =
     Inr (New\<lparr>ID := ''a'', Subject := ''s'', DataEncoded := Some (bytes_of_string ''foo'')\<rparr>)"
  using Unmarshal_target [of demo_lib "Some [1]" sample_event]
  by (simp add: Unmarshal_def decode_defs bad_time_record_def float_record_def small_record_def
      New_def demo_defs key_defs)

subsection \<open>The attribute keys\<close>

lemma key_neq:
  "specversion \<noteq> id_key" "specversion \<noteq> source" "specversion \<noteq> typ_key" "specversion \<noteq> datacontenttype"
  "specversion \<noteq> dataschema" "specversion \<noteq> subject" "specversion \<noteq> time" "id_key \<noteq> specversion"
  "id_key \<noteq> source" "id_key \<noteq> typ_key" "id_key \<noteq> datacontenttype" "id_key \<noteq> dataschema"
  "id_key \<noteq> subject" "id_key \<noteq> time" "source \<noteq> specversion" "source \<noteq> id_key"
  "source \<noteq> typ_key" "source \<noteq> datacontenttype" "source \<noteq> dataschema" "source \<noteq> subject"
  "source \<noteq> time" "typ_key \<noteq> specversion" "typ_key \<noteq> id_key" "typ_key \<noteq> source"
  "typ_key \<noteq> datacontenttype" "typ_key \<noteq> dataschema" "typ_key \<noteq> subject" "typ_key \<noteq> time"
  "datacontenttype \<noteq> specversion" "datacontenttype \<noteq> id_key" "datacontenttype \<noteq> source" "datacontenttype \<noteq> typ_key"
  "datacontenttype \<noteq> dataschema" "datacontenttype \<noteq> subject" "datacontenttype \<noteq> time" "dataschema \<noteq> specversion"
  "dataschema \<noteq> id_key" "dataschema \<noteq> source" "dataschema \<noteq> typ_key" "dataschema \<noteq> datacontenttype"
  "dataschema \<noteq> subject" "dataschema \<noteq> time" "subject \<noteq> specversion" "subject \<noteq> id_key"
  "subject \<noteq> source" "subject \<noteq> typ_key" "subject \<noteq> datacontenttype" "subject \<noteq> dataschema"
  "subject \<noteq> time" "time \<noteq> specversion" "time \<noteq> id_key" "time \<noteq> source"
  "time \<noteq> typ_key" "time \<noteq> datacontenttype" "time \<noteq> dataschema" "time \<noteq> subject"
  by (simp_all add: key_defs)

lemma optional_not_required:
  "datacontenttype \<notin> required_names" "dataschema \<notin> required_names"
  "subject \<notin> required_names" "time \<notin> required_names"
  by (simp_all add: required_names_def key_neq)

lemma reserved_iff:
  "n \<in> reserved_names \<longleftrightarrow>
     n = specversion \<or> n = id_key \<or> n = source \<or> n = typ_key \<or>
     n = datacontenttype \<or> n = dataschema \<or> n = subject \<or> n = time"
  by (auto simp: reserved_names_def required_names_def optional_names_def)

lemma step_required:
  "n \<in> required_names \<Longrightarrow> decode_attribute l (n, v) e = Inr e"
  by (auto simp: decode_attribute_def required_names_def)

lemma step_datacontenttype:
  "decode_attribute l (datacontenttype, v) e =
     (case v of VString sv \<Rightarrow> Inr (SetDataContentType sv e) | _ \<Rightarrow> Inr e)"
  by (simp add: decode_attribute_def key_defs)

lemma step_dataschema:
  "decode_attribute l (dataschema, v) e =
     (case v of VString sv \<Rightarrow> Inr (SetDataSchema sv e) | _ \<Rightarrow> Inr e)"
  by (simp add: decode_attribute_def key_defs)

lemma step_subject:
  "decode_attribute l (subject, v) e =
     (case v of VString sv \<Rightarrow> Inr (SetSubject sv e) | _ \<Rightarrow> Inr e)"
  by (simp add: decode_attribute_def key_defs)

lemma step_time:
  "decode_attribute l (time, v) e =
     (case v of
        VString sv \<Rightarrow> (case parse_time l sv of Inl err \<Rightarrow> Inl err | Inr t \<Rightarrow> Inr (SetTime t e))
      | _ \<Rightarrow> Inr e)"
  by (simp add: decode_attribute_def key_defs)

lemma step_extension:
  "n \<notin> reserved_names \<Longrightarrow>
   decode_attribute l (n, v) e =
     (case extensionValueFrom v of
        Inl err \<Rightarrow> Inl (ExtensionConvertError n err)
      | Inr x \<Rightarrow> Inr (SetExtension n x e))"
  by (simp add: decode_attribute_def reserved_iff)

lemma name_cases:
  obtains "n \<in> required_names" | "n = datacontenttype" | "n = dataschema" | "n = subject"
    | "n = time" | "n \<notin> reserved_names"
  by (auto simp: reserved_names_def required_names_def optional_names_def)

lemma step_not_string:
  "n \<in> reserved_names \<Longrightarrow> \<not> is_string v \<Longrightarrow> decode_attribute l (n, v) e = Inr e"
  by (cases v)
     (auto simp: reserved_names_def required_names_def optional_names_def
        step_required step_datacontenttype step_dataschema step_subject step_time)


subsection \<open>The loop of FromAvro\<close>

lemma decode_attributes_append:
  "decode_attributes l (xs @ ys) e =
     (case decode_attributes l xs e of Inl err \<Rightarrow> Inl err | Inr e' \<Rightarrow> decode_attributes l ys e')"
  by (induction xs arbitrary: e) (auto split: sum.splits)

lemma step_error_indep:
  "decode_attribute l a e = Inl err \<longleftrightarrow> decode_attribute l a New = Inl err"
proof (cases a)
  case (Pair n v)
  show ?thesis
    unfolding Pair
    by (cases n rule: name_cases)
       (auto simp: step_required step_datacontenttype step_dataschema step_subject step_time
          step_extension split: go_value.splits sum.splits)
qed

lemma step_decodes:
  "decodes l a \<longleftrightarrow> (\<exists>e'. decode_attribute l a e = Inr e')"
proof -
  have "(\<exists>err. decode_attribute l a e = Inl err) \<longleftrightarrow> (\<exists>err. decode_attribute l a New = Inl err)"
    using step_error_indep by blast
  then show ?thesis
    unfolding decodes_def by (cases "decode_attribute l a e"; cases "decode_attribute l a New") auto
qed

lemma loop_succeeds:
  "\<forall>a \<in> set as. decodes l a \<Longrightarrow> \<exists>e'. decode_attributes l as e = Inr e'"
proof (induction as arbitrary: e)
  case Nil
  then show ?case by simp
next
  case (Cons a as)
  from Cons.prems have "decodes l a" by simp
  then obtain e1 where "decode_attribute l a e = Inr e1"
    using step_decodes by blast
  with Cons show ?case by simp
qed



lemma loop_field:
  assumes step: "\<And>a e e'. decode_attribute l a e = Inr e' \<Longrightarrow>
                   f e' = (if fst a = k then g (snd a) (f e) else f e)"
  shows "distinct (map fst as) \<Longrightarrow> decode_attributes l as e0 = Inr e \<Longrightarrow>
         f e = (case map_of as k of Some v \<Rightarrow> g v (f e0) | None \<Rightarrow> f e0)"
proof (induction as arbitrary: e0)
  case Nil
  then show ?case by simp
next
  case (Cons a as)
  from Cons.prems(2) obtain e1 where s: "decode_attribute l a e0 = Inr e1"
    and r: "decode_attributes l as e1 = Inr e"
    by (auto split: sum.splits)
  from Cons.prems(1) have d: "distinct (map fst as)" and nin: "fst a \<notin> fst ` set as"
    by auto
  have ih: "f e = (case map_of as k of Some v \<Rightarrow> g v (f e1) | None \<Rightarrow> f e1)"
    using Cons.IH [OF d r] .
  show ?case
  proof (cases "fst a = k")
    case True
    with nin have "map_of as k = None"
      by (simp add: map_of_eq_None_iff)
    with ih step [OF s] True show ?thesis
      by (cases a) simp
  next
    case False
    with step [OF s] have "f e1 = f e0" by simp
    with ih False show ?thesis
      by (cases a) (simp split: option.splits)
  qed
qed

lemma loop_frame:
  assumes step: "\<And>a e e'. decode_attribute l a e = Inr e' \<Longrightarrow> f e' = f e"
  shows "decode_attributes l as e0 = Inr e \<Longrightarrow> f e = f e0"
proof (induction as arbitrary: e0)
  case Nil
  then show ?case by simp
next
  case (Cons a as)
  from Cons.prems obtain e1 where s: "decode_attribute l a e0 = Inr e1"
    and r: "decode_attributes l as e1 = Inr e"
    by (auto split: sum.splits)
  from Cons.IH [OF r] step [OF s] show ?case by simp
qed

subsection \<open>What one entry does to each field\<close>

lemmas step_simps =
  step_required step_datacontenttype step_dataschema step_subject step_time step_extension

lemma step_frame:
  assumes "decode_attribute l a e = Inr e'"
  shows "SpecVersion e' = SpecVersion e \<and> ID e' = ID e \<and> Source e' = Source e \<and>
         Type e' = Type e \<and> DataEncoded e' = DataEncoded e"
proof (cases a)
  case (Pair n v)
  with assms show ?thesis
    by (cases n rule: name_cases)
       (auto simp: step_simps setter_defs split: go_value.splits sum.splits)
qed

lemma step_DataContentType:
  assumes "decode_attribute l a e = Inr e'"
  shows "DataContentType e' =
           (if fst a = datacontenttype
            then (case snd a of VString s \<Rightarrow> s | _ \<Rightarrow> DataContentType e)
            else DataContentType e)"
proof (cases a)
  case (Pair n v)
  with assms show ?thesis
    by (cases n rule: name_cases)
       (auto simp: step_simps setter_defs key_neq required_names_def reserved_iff
          split: go_value.splits sum.splits)
qed

lemma step_DataSchema:
  assumes "decode_attribute l a e = Inr e'"
  shows "DataSchema e' =
           (if fst a = dataschema
            then (case snd a of VString s \<Rightarrow> s | _ \<Rightarrow> DataSchema e)
            else DataSchema e)"
proof (cases a)
  case (Pair n v)
  with assms show ?thesis
    by (cases n rule: name_cases)
       (auto simp: step_simps setter_defs key_neq required_names_def reserved_iff
          split: go_value.splits sum.splits)
qed

lemma step_Subject:
  assumes "decode_attribute l a e = Inr e'"
  shows "Subject e' =
           (if fst a = subject
            then (case snd a of VString s \<Rightarrow> s | _ \<Rightarrow> Subject e)
            else Subject e)"
proof (cases a)
  case (Pair n v)
  with assms show ?thesis
    by (cases n rule: name_cases)
       (auto simp: step_simps setter_defs key_neq required_names_def reserved_iff
          split: go_value.splits sum.splits)
qed

lemma step_Time:
  assumes "decode_attribute l a e = Inr e'"
  shows "Time e' =
           (if fst a = time
            then (case snd a of
                    VString s \<Rightarrow> (case parse_time l s of Inr t \<Rightarrow> t | Inl _ \<Rightarrow> Time e)
                  | _ \<Rightarrow> Time e)
            else Time e)"
proof (cases a)
  case (Pair n v)
  with assms show ?thesis
    by (cases n rule: name_cases)
       (auto simp: step_simps setter_defs key_neq required_names_def reserved_iff
          split: go_value.splits sum.splits)
qed

lemma step_Extensions:
  assumes "decode_attribute l a e = Inr e'" and "k \<notin> reserved_names"
  shows "map_of (Extensions e') k =
           (if fst a = k
            then (case extensionValueFrom (snd a) of
                    Inr x \<Rightarrow> Some x | Inl _ \<Rightarrow> map_of (Extensions e) k)
            else map_of (Extensions e) k)"
proof (cases a)
  case (Pair n v)
  with assms show ?thesis
    by (cases n rule: name_cases)
       (auto simp: step_simps setter_defs reserved_iff required_names_def update_conv'
          split: go_value.splits sum.splits)
qed

lemma step_Extensions_reserved:
  assumes "decode_attribute l a e = Inr e'" and "k \<in> reserved_names"
  shows "map_of (Extensions e') k = map_of (Extensions e) k"
proof (cases a)
  case (Pair n v)
  with assms show ?thesis
    by (cases n rule: name_cases)
       (auto simp: step_simps setter_defs update_conv'
          split: go_value.splits sum.splits)
qed


subsection \<open>Encoding\<close>

lemma int32_via_int: "ucast (scast (w :: 32 word) :: 64 word) = w"
  by (rule bit_word_eqI) (simp add: bit_simps)

lemma attribute_roundtrip:
  assumes "is_attribute_value v" and "types_Validate l v = Inr v"
  shows "\<exists>a. attributeValueFor l v = Inr a \<and> extensionValueFrom a = Inr (coerced l v)"
  using assms
  by (cases v) (simp_all add: attributeValueFor_def extensionValueFrom_def int32_via_int)

lemma encode_succeeds:
  "\<forall>a \<in> set xs. encodes l (snd a) \<Longrightarrow> \<exists>r'. encode_extensions l xs r = Inr r'"
proof (induction xs arbitrary: r)
  case Nil
  then show ?case by simp
next
  case (Cons x xs)
  obtain n v where x: "x = (n, v)" by (cases x)
  from Cons.prems x obtain a where "attributeValueFor l v = Inr a"
    by (auto simp: encodes_def split: sum.splits)
  with Cons x show ?case by simp
qed


lemma encode_Data:
  "encode_extensions l xs r = Inr r' \<Longrightarrow> Data r' = Data r"
  by (induction l xs r rule: encode_extensions.induct)
     (auto simp: set_attribute_def split: sum.splits)

lemma encode_distinct:
  "encode_extensions l xs r = Inr r' \<Longrightarrow> distinct (map fst (Attribute r)) \<Longrightarrow>
   distinct (map fst (Attribute r'))"
  by (induction l xs r rule: encode_extensions.induct)
     (auto simp: set_attribute_def distinct_update split: sum.splits)

lemma encode_other:
  "encode_extensions l xs r = Inr r' \<Longrightarrow> k \<notin> fst ` set xs \<Longrightarrow>
   map_of (Attribute r') k = map_of (Attribute r) k"
  by (induction l xs r rule: encode_extensions.induct)
     (auto simp: set_attribute_def update_conv' split: sum.splits)

lemma encode_entry:
  "encode_extensions l xs r = Inr r' \<Longrightarrow> distinct (map fst xs) \<Longrightarrow> (k, v) \<in> set xs \<Longrightarrow>
   \<exists>a. attributeValueFor l v = Inr a \<and> map_of (Attribute r') k = Some a"
proof (induction l xs r rule: encode_extensions.induct)
  case (1 l r)
  then show ?case by simp
next
  case (2 l name w rest r)
  from "2.prems"(1) obtain a where a: "attributeValueFor l w = Inr a"
    and r: "encode_extensions l rest (set_attribute name a r) = Inr r'"
    by (auto split: sum.splits)
  show ?case
  proof (cases "(k, v) = (name, w)")
    case True
    with "2.prems"(2) have "k \<notin> fst ` set rest" by auto
    from encode_other [OF r this] True a show ?thesis
      by (simp add: set_attribute_def update_conv')
  next
    case False
    with "2.prems" have "(k, v) \<in> set rest" "distinct (map fst rest)" by auto
    with "2.IH" [OF a r] show ?thesis by blast
  qed
qed

lemma encode_attributes_Data: "Data (encode_attributes l e) = VNil"
  by (simp add: encode_attributes_def Let_def set_attribute_def)

lemma encode_attributes_distinct: "distinct (map fst (Attribute (encode_attributes l e)))"
  by (simp add: encode_attributes_def Let_def set_attribute_def distinct_update)

lemma encode_attributes_map:
  "map_of (Attribute (encode_attributes l e)) k =
     (if k = specversion then Some (VString (SpecVersion e))
      else if k = id_key then Some (VString (ID e))
      else if k = source then Some (VString (Source e))
      else if k = typ_key then Some (VString (Type e))
      else if k = datacontenttype \<and> DataContentType e \<noteq> '''' then Some (VString (DataContentType e))
      else if k = dataschema \<and> DataSchema e \<noteq> '''' then Some (VString (DataSchema e))
      else if k = subject \<and> Subject e \<noteq> '''' then Some (VString (Subject e))
      else if k = time \<and> Time e \<noteq> zeroTime then Some (VString (time_Format l (Time e)))
      else None)"
  by (simp add: encode_attributes_def Let_def set_attribute_def update_conv' key_neq)

lemma encode_attributes_reserved:
  "k \<notin> reserved_names \<Longrightarrow> map_of (Attribute (encode_attributes l e)) k = None"
  by (simp add: encode_attributes_map reserved_iff)

lemma ToAvro_Inr:
  "ToAvro l e = Inr r \<Longrightarrow>
   \<exists>r0. encode_extensions l (Extensions e) (encode_attributes l e) = Inr r0 \<and>
        Attribute r = Attribute r0 \<and>
        Data r = (case DataEncoded e of None \<Rightarrow> VNil | Some d \<Rightarrow> VBytes (Some d))"
  by (auto simp: ToAvro_def encode_attributes_Data dest: encode_Data split: sum.splits option.splits)

lemma map_of_None_iff: "map_of xs k = None \<longleftrightarrow> k \<notin> fst ` set xs"
  by (simp add: map_of_eq_None_iff)

lemma unsupported_not_encoded:
  assumes "types_Validate l v = Inr vv" and "\<not> is_attribute_value vv"
  shows "attributeValueFor l v = Inl (UnsupportedAttributeType (type_name v))"
  using assms by (cases vv) (simp_all add: attributeValueFor_def)


text \<open>
  Claim C5. Let the extensions of an event have names other than the eight attribute
  names, and let \<open>ToAvro\<close> succeed. Then the record has the key \<open>datacontenttype\<close>,
  \<open>dataschema\<close>, \<open>subject\<close> exactly when the field of the event is not the empty string,
  and then with that string; and it has the key \<open>time\<close> exactly when the time of the
  event is not the zero time, and then with the time formatted (by the RFC 3339
  nanosecond layout, which is what \<open>time_Format\<close> stands for). So an event with a zero
  time gives a record without the key \<open>time\<close>, and empty strings give no key.
\<close>

theorem ToAvro_optional_attributes:
  assumes "fst ` set (Extensions e) \<inter> reserved_names = {}" and "ToAvro l e = Inr r"
  shows "(DataContentType e = '''' \<longrightarrow> datacontenttype \<notin> fst ` set (Attribute r)) \<and>
         (DataContentType e \<noteq> '''' \<longrightarrow>
            map_of (Attribute r) datacontenttype = Some (VString (DataContentType e))) \<and>
         (DataSchema e = '''' \<longrightarrow> dataschema \<notin> fst ` set (Attribute r)) \<and>
         (DataSchema e \<noteq> '''' \<longrightarrow>
            map_of (Attribute r) dataschema = Some (VString (DataSchema e))) \<and>
         (Subject e = '''' \<longrightarrow> subject \<notin> fst ` set (Attribute r)) \<and>
         (Subject e \<noteq> '''' \<longrightarrow> map_of (Attribute r) subject = Some (VString (Subject e))) \<and>
         (Time e = zeroTime \<longrightarrow> time \<notin> fst ` set (Attribute r)) \<and>
         (Time e \<noteq> zeroTime \<longrightarrow>
            map_of (Attribute r) time = Some (VString (time_Format l (Time e))))"
proof -
  from assms(2) obtain r0 where
    r0: "encode_extensions l (Extensions e) (encode_attributes l e) = Inr r0"
    and a: "Attribute r = Attribute r0"
    using ToAvro_Inr by blast
  have keep: "map_of (Attribute r) k = map_of (Attribute (encode_attributes l e)) k"
    if "k \<in> reserved_names" for k
  proof -
    from that assms(1) have "k \<notin> fst ` set (Extensions e)" by blast
    from encode_other [OF r0 this] a show ?thesis by simp
  qed
  have "map_of (Attribute r) datacontenttype =
          (if DataContentType e = '''' then None else Some (VString (DataContentType e)))"
    by (simp add: keep reserved_iff encode_attributes_map key_neq)
  moreover have "map_of (Attribute r) dataschema =
          (if DataSchema e = '''' then None else Some (VString (DataSchema e)))"
    by (simp add: keep reserved_iff encode_attributes_map key_neq)
  moreover have "map_of (Attribute r) subject =
          (if Subject e = '''' then None else Some (VString (Subject e)))"
    by (simp add: keep reserved_iff encode_attributes_map key_neq)
  moreover have "map_of (Attribute r) time =
          (if Time e = zeroTime then None else Some (VString (time_Format l (Time e))))"
    by (simp add: keep reserved_iff encode_attributes_map key_neq)
  ultimately show ?thesis
    by (simp add: map_of_None_iff [symmetric])
qed

theorem ToAvro_optional_attributes_witness:
  "fst ` set (Extensions plain_event) \<inter> reserved_names = {} \<and>
   ToAvro demo_lib plain_event = Inr plain_record \<and>
   DataContentType plain_event = '''' \<and> datacontenttype \<notin> fst ` set (Attribute plain_record) \<and>
   DataSchema plain_event = '''' \<and> dataschema \<notin> fst ` set (Attribute plain_record) \<and>
   Subject plain_event = '''' \<and> subject \<notin> fst ` set (Attribute plain_record) \<and>
   Time plain_event = zeroTime \<and> time \<notin> fst ` set (Attribute plain_record) \<and>
   fst ` set (Extensions sample_event) \<inter> reserved_names = {} \<and>
   ToAvro demo_lib sample_event = Inr sample_record \<and>
   DataContentType sample_event = '''' \<and> datacontenttype \<notin> fst ` set (Attribute sample_record) \<and>
   map_of (Attribute sample_record) dataschema = Some (VString ''test'') \<and>
   map_of (Attribute sample_record) subject = Some (VString ''test'') \<and>
   Time sample_event \<noteq> zeroTime \<and>
   map_of (Attribute sample_record) time = Some (VString ''2020-12-25T01:01:01.000000001Z'')"
  using ToAvro_optional_attributes [of plain_event demo_lib plain_record]
    ToAvro_optional_attributes [of sample_event demo_lib sample_record]
  by (simp add: encode_defs plain_event_def plain_record_def sample_event_def sample_record_def
      New_def demo_defs key_defs reserved_names_def required_names_def optional_names_def)

lemma rejected_not_encoded:
  "types_Validate l v = Inl err \<Longrightarrow> attributeValueFor l v = Inl err"
  by (simp add: attributeValueFor_def)

lemma supported_encoded:
  "types_Validate l v = Inr vv \<Longrightarrow> is_attribute_value vv \<Longrightarrow> encodes l v"
  by (cases vv) (simp_all add: attributeValueFor_def encodes_def)

lemma encodes_iff:
  "encodes l v \<longleftrightarrow> (\<exists>vv. types_Validate l v = Inr vv \<and> is_attribute_value vv)"
proof (cases "types_Validate l v")
  case (Inl err)
  then show ?thesis by (simp add: encodes_def rejected_not_encoded)
next
  case (Inr vv)
  show ?thesis
  proof (cases "is_attribute_value vv")
    case True
    with Inr show ?thesis by (auto simp: supported_encoded)
  next
    case False
    with Inr show ?thesis by (simp add: encodes_def unsupported_not_encoded)
  qed
qed

lemma ToAvro_succeeds:
  "\<forall>a \<in> set (Extensions e). encodes l (snd a) \<Longrightarrow> \<exists>r. ToAvro l e = Inr r"
proof -
  assume "\<forall>a \<in> set (Extensions e). encodes l (snd a)"
  then obtain r' where "encode_extensions l (Extensions e) (encode_attributes l e) = Inr r'"
    using encode_succeeds by blast
  then show ?thesis by (simp add: ToAvro_def split: option.splits)
qed






subsection \<open>Decoding: attributes that are not strings\<close>

lemma decode_required_alt:
  "decode_required attrs e =
     set_if_string SetType (map_of attrs typ_key)
       (set_if_string SetSource (map_of attrs source)
          (set_if_string SetID (map_of attrs id_key)
             (set_if_string SetSpecVersion (map_of attrs specversion) e)))"
  by (simp add: decode_required_def Let_def set_if_string_def)

lemma set_if_string_cases:
  "set_if_string f m e = (case m of Some v \<Rightarrow> (case v of VString s \<Rightarrow> f s e | _ \<Rightarrow> e) | None \<Rightarrow> e)"
  by (simp add: set_if_string_def split: option.splits go_value.splits)

lemma set_if_string_not_string:
  "(case m of Some v \<Rightarrow> \<not> is_string v | None \<Rightarrow> True) \<Longrightarrow> set_if_string f m e = e"
  by (cases m; cases "the m") (simp_all add: set_if_string_def)

lemma set_if_string_string: "set_if_string f (Some (VString s)) e = f s e"
  by (simp add: set_if_string_def)

lemma set_if_string_frame:
  "(\<And>s x. P (f s x) = P x) \<Longrightarrow> P (set_if_string f m e) = P e"
  by (simp add: set_if_string_cases split: option.splits go_value.splits)

lemma set_if_string_field:
  "(\<And>s x y. P (f s x) = P (f s y)) \<Longrightarrow> P x = P y \<Longrightarrow>
   P (set_if_string f m x) = P (set_if_string f m y)"
  by (simp add: set_if_string_cases split: option.splits go_value.splits)

lemmas field_frame =
  set_if_string_frame [where P = SpecVersion] set_if_string_frame [where P = ID]
  set_if_string_frame [where P = Source] set_if_string_frame [where P = Type]
  set_if_string_frame [where P = DataContentType] set_if_string_frame [where P = DataSchema]
  set_if_string_frame [where P = Subject] set_if_string_frame [where P = Time]
  set_if_string_frame [where P = Extensions] set_if_string_frame [where P = DataEncoded]

lemma decode_required_frame:
  "DataContentType (decode_required attrs e) = DataContentType e"
  "DataSchema (decode_required attrs e) = DataSchema e"
  "Subject (decode_required attrs e) = Subject e"
  "Time (decode_required attrs e) = Time e"
  "Extensions (decode_required attrs e) = Extensions e"
  "DataEncoded (decode_required attrs e) = DataEncoded e"
  by (simp_all add: decode_required_alt field_frame setter_defs)

lemma decode_required_fields:
  "SpecVersion (decode_required attrs e) =
     SpecVersion (set_if_string SetSpecVersion (map_of attrs specversion) e)"
  "ID (decode_required attrs e) = ID (set_if_string SetID (map_of attrs id_key) e)"
  "Source (decode_required attrs e) = Source (set_if_string SetSource (map_of attrs source) e)"
  "Type (decode_required attrs e) = Type (set_if_string SetType (map_of attrs typ_key) e)"
proof -
  let ?a = "set_if_string SetSpecVersion (map_of attrs specversion) e"
  let ?b = "set_if_string SetID (map_of attrs id_key) ?a"
  let ?c = "set_if_string SetSource (map_of attrs source) ?b"
  have d: "decode_required attrs e = set_if_string SetType (map_of attrs typ_key) ?c"
    by (rule decode_required_alt)
  have "SpecVersion (decode_required attrs e) = SpecVersion ?c"
    unfolding d by (rule set_if_string_frame) (simp add: setter_defs)
  also have "\<dots> = SpecVersion ?b"
    by (rule set_if_string_frame) (simp add: setter_defs)
  also have "\<dots> = SpecVersion ?a"
    by (rule set_if_string_frame) (simp add: setter_defs)
  finally show "SpecVersion (decode_required attrs e) = SpecVersion ?a" .
  have ia: "ID ?a = ID e"
    by (rule set_if_string_frame) (simp add: setter_defs)
  have "ID (decode_required attrs e) = ID ?c"
    unfolding d by (rule set_if_string_frame) (simp add: setter_defs)
  also have "\<dots> = ID ?b"
    by (rule set_if_string_frame) (simp add: setter_defs)
  also have "\<dots> = ID (set_if_string SetID (map_of attrs id_key) e)"
    by (rule set_if_string_field) (simp add: setter_defs, rule ia)
  finally show "ID (decode_required attrs e) = ID (set_if_string SetID (map_of attrs id_key) e)" .
  have sb: "Source ?b = Source e"
    by (simp add: field_frame setter_defs)
  have "Source (decode_required attrs e) = Source ?c"
    unfolding d by (rule set_if_string_frame) (simp add: setter_defs)
  also have "\<dots> = Source (set_if_string SetSource (map_of attrs source) e)"
    by (rule set_if_string_field) (simp add: setter_defs, rule sb)
  finally show "Source (decode_required attrs e) =
    Source (set_if_string SetSource (map_of attrs source) e)" .
  have tc: "Type ?c = Type e"
    by (simp add: field_frame setter_defs)
  show "Type (decode_required attrs e) = Type (set_if_string SetType (map_of attrs typ_key) e)"
    unfolding d by (rule set_if_string_field) (simp add: setter_defs, rule tc)
qed

lemma decode_data_alt:
  "decode_data l d e =
     (case d of
        VBytes b \<Rightarrow> Inr (e\<lparr>DataEncoded := b\<rparr>)
      | VString s \<Rightarrow> Inr (e\<lparr>DataEncoded := Some (bytes_of_string s)\<rparr>)
      | VMap m \<Rightarrow>
          (case wrapped_bytes m of
             Some b \<Rightarrow> Inr (e\<lparr>DataEncoded := b\<rparr>)
           | None \<Rightarrow>
               (case wrapped_string m of
                  Some str \<Rightarrow> Inr (e\<lparr>DataEncoded := Some (bytes_of_string str)\<rparr>)
                | None \<Rightarrow>
                    (case json_Marshal l m of
                       Inl err \<Rightarrow> Inl (MarshalMapDataError err)
                     | Inr jsonBytes \<Rightarrow> Inr (e\<lparr>DataEncoded := Some jsonBytes\<rparr>))))
      | _ \<Rightarrow> Inr e)"
proof (cases d)
  case (VMap m)
  show ?thesis
  proof (cases "wrapped_bytes m")
    case None
    then have nb: "(case map_of m ''bytes'' of Some (VBytes b) \<Rightarrow> f b | _ \<Rightarrow> x) = x"
      for f :: "bytes \<Rightarrow> error + event" and x
      by (simp add: wrapped_bytes_def split: option.splits go_value.splits)
    show ?thesis
    proof (cases "wrapped_string m")
      case None
      then have ns: "(case map_of m ''string'' of Some (VString b) \<Rightarrow> f b | _ \<Rightarrow> x) = x"
        for f :: "string \<Rightarrow> error + event" and x
        by (simp add: wrapped_string_def split: option.splits go_value.splits)
      from VMap \<open>wrapped_bytes m = None\<close> None show ?thesis
        by (simp add: decode_data_def nb ns)
    next
      case (Some str)
      then have "map_of m ''string'' = Some (VString str)"
        by (simp add: wrapped_string_def split: option.splits go_value.splits)
      with VMap \<open>wrapped_bytes m = None\<close> Some show ?thesis
        by (simp add: decode_data_def nb)
    qed
  next
    case (Some b)
    then have "map_of m ''bytes'' = Some (VBytes b)"
      by (simp add: wrapped_bytes_def split: option.splits go_value.splits)
    with VMap Some show ?thesis
      by (simp add: decode_data_def)
  qed
qed (simp_all add: decode_data_def)

lemma decode_data_frame:
  assumes "decode_data l d e = Inr e'"
  shows "SpecVersion e' = SpecVersion e \<and> ID e' = ID e \<and> Source e' = Source e \<and>
         Type e' = Type e \<and> DataContentType e' = DataContentType e \<and>
         DataSchema e' = DataSchema e \<and> Subject e' = Subject e \<and> Time e' = Time e \<and>
         Extensions e' = Extensions e"
  using assms
  by (auto simp: decode_data_alt split: go_value.splits option.splits sum.splits)

lemma FromAvro_Inr:
  "FromAvro l r = Inr e \<Longrightarrow>
   \<exists>e1. decode_attributes l (Attribute r) (decode_required (Attribute r) New) = Inr e1 \<and>
        decode_data l (Data r) e1 = Inr e"
  by (auto simp: FromAvro_def split: sum.splits)

lemma decode_required_delete:
  assumes "case map_of as n of Some v \<Rightarrow> \<not> is_string v | None \<Rightarrow> True"
  shows "decode_required (AList.delete n as) e = decode_required as e"
proof -
  have "set_if_string f (map_of (AList.delete n as) k) x = set_if_string f (map_of as k) x"
    for f k x
  proof (cases "k = n")
    case True
    with assms show ?thesis
      by (simp add: delete_conv' set_if_string_not_string)
  next
    case False
    then show ?thesis by (simp add: delete_conv')
  qed
  then show ?thesis by (simp add: decode_required_alt)
qed

lemma decode_attributes_delete:
  assumes "n \<in> reserved_names"
  shows "\<forall>a \<in> set as. fst a = n \<longrightarrow> n \<in> required_names \<or> \<not> is_string (snd a) \<Longrightarrow>
         decode_attributes l (AList.delete n as) e = decode_attributes l as e"
proof (induction as arbitrary: e)
  case Nil
  then show ?case by simp
next
  case (Cons a as)
  obtain k v where a: "a = (k, v)" by (cases a)
  from Cons.prems have rest: "\<forall>a \<in> set as. fst a = n \<longrightarrow> n \<in> required_names \<or> \<not> is_string (snd a)"
    by simp
  show ?case
  proof (cases "k = n")
    case True
    with Cons.prems a have "n \<in> required_names \<or> \<not> is_string v" by simp
    with assms have "decode_attribute l (n, v) e = Inr e"
      using step_required step_not_string by blast
    with True a Cons.IH [OF rest] show ?thesis by simp
  next
    case False
    with a Cons.IH [OF rest] show ?thesis by (simp split: sum.splits)
  qed
qed

lemma FromAvro_delete:
  assumes "n \<in> reserved_names"
    and "\<forall>a \<in> set (Attribute r). fst a = n \<longrightarrow> \<not> is_string (snd a)"
  shows "FromAvro l (r\<lparr>Attribute := AList.delete n (Attribute r)\<rparr>) = FromAvro l r"
proof -
  have "case map_of (Attribute r) n of Some v \<Rightarrow> \<not> is_string v | None \<Rightarrow> True"
  proof (cases "map_of (Attribute r) n")
    case None
    then show ?thesis by simp
  next
    case (Some x)
    then have "(n, x) \<in> set (Attribute r)" by (rule map_of_SomeD)
    with assms(2) have "\<not> is_string x" by force
    with Some show ?thesis by simp
  qed
  then have 1: "decode_required (AList.delete n (Attribute r)) New = decode_required (Attribute r) New"
    by (rule decode_required_delete)
  have 2: "decode_attributes l (AList.delete n (Attribute r)) e = decode_attributes l (Attribute r) e" for e
    using assms by (intro decode_attributes_delete) auto
  show ?thesis by (simp add: FromAvro_def 1 2 split: sum.splits)
qed

lemma loop_no_reserved_extension:
  assumes "decode_attributes l as e0 = Inr e" and "k \<in> reserved_names"
  shows "map_of (Extensions e) k = map_of (Extensions e0) k"
  using loop_frame [where f = "\<lambda>e. map_of (Extensions e) k", OF _ assms(1)]
    step_Extensions_reserved [OF _ assms(2)] by blast

lemma FromAvro_no_reserved_extension:
  assumes "FromAvro l r = Inr e" and "k \<in> reserved_names"
  shows "k \<notin> fst ` set (Extensions e)"
proof -
  from FromAvro_Inr [OF assms(1)] obtain e1 where
    1: "decode_attributes l (Attribute r) (decode_required (Attribute r) New) = Inr e1"
    and 2: "decode_data l (Data r) e1 = Inr e" by blast
  from loop_no_reserved_extension [OF 1 assms(2)]
  have "map_of (Extensions e1) k = None"
    by (simp add: decode_required_frame New_def)
  with decode_data_frame [OF 2] have "map_of (Extensions e) k = None" by simp
  then show ?thesis by (simp add: map_of_None_iff)
qed

lemma loop_required_fields:
  assumes "decode_attributes l as e0 = Inr e"
  shows "SpecVersion e = SpecVersion e0" "ID e = ID e0" "Source e = Source e0" "Type e = Type e0"
    "DataEncoded e = DataEncoded e0"
proof -
  show "SpecVersion e = SpecVersion e0"
    by (rule loop_frame [where f = SpecVersion, OF _ assms]) (drule step_frame, simp)
  show "ID e = ID e0"
    by (rule loop_frame [where f = ID, OF _ assms]) (drule step_frame, simp)
  show "Source e = Source e0"
    by (rule loop_frame [where f = Source, OF _ assms]) (drule step_frame, simp)
  show "Type e = Type e0"
    by (rule loop_frame [where f = Type, OF _ assms]) (drule step_frame, simp)
  show "DataEncoded e = DataEncoded e0"
    by (rule loop_frame [where f = DataEncoded, OF _ assms]) (drule step_frame, simp)
qed

text \<open>
  Claim C8. Let the record have, under one of the four required names, a value that is
  not a string. Then \<open>FromAvro\<close> does with the record exactly what it does with the
  record without that entry, error or event: the entry causes no error and has no
  effect. If \<open>FromAvro\<close> returns an event, the field of that name is as in a fresh event
  (not populated), and the event has no extension of that name.
\<close>

theorem FromAvro_required_not_string:
  assumes "name \<in> required_names" and "map_of (Attribute r) name = Some v"
    and "\<not> is_string v"
  shows "FromAvro l r = FromAvro l (r\<lparr>Attribute := AList.delete name (Attribute r)\<rparr>) \<and>
         (\<forall>e. FromAvro l r = Inr e \<longrightarrow>
            field_as_new name e \<and> name \<notin> fst ` set (Extensions e))"
proof -
  have res: "name \<in> reserved_names"
    using assms(1) by (simp add: reserved_names_def)
  have c: "case map_of (Attribute r) name of Some v \<Rightarrow> \<not> is_string v | None \<Rightarrow> True"
    using assms(2,3) by simp
  have 1: "decode_required (AList.delete name (Attribute r)) New = decode_required (Attribute r) New"
    using c by (rule decode_required_delete)
  have 2: "decode_attributes l (AList.delete name (Attribute r)) e = decode_attributes l (Attribute r) e" for e
    using res assms(1) by (intro decode_attributes_delete) auto
  have eq: "FromAvro l r = FromAvro l (r\<lparr>Attribute := AList.delete name (Attribute r)\<rparr>)"
    by (simp add: FromAvro_def 1 2 split: sum.splits)
  have fld: "field_as_new name e \<and> name \<notin> fst ` set (Extensions e)" if ok: "FromAvro l r = Inr e" for e
  proof -
    from FromAvro_Inr [OF ok] obtain e1 where
      l: "decode_attributes l (Attribute r) (decode_required (Attribute r) New) = Inr e1"
      and d: "decode_data l (Data r) e1 = Inr e" by blast
    have nv: "v \<noteq> VString s" for s
      using assms(3) by auto
    note fr = decode_data_frame [OF d] loop_required_fields [OF l]
    from assms(1) consider "name = specversion" | "name = id_key" | "name = source"
      | "name = typ_key"
      by (auto simp: required_names_def)
    then have "field_as_new name e"
    proof cases
      case 1
      with assms(2,3) have "SpecVersion (decode_required (Attribute r) New) = SpecVersion New"
        by (simp add: decode_required_fields set_if_string_not_string)
      with 1 fr show ?thesis by (simp add: field_as_new_def)
    next
      case 2
      with assms(2,3) have "ID (decode_required (Attribute r) New) = ID New"
        by (simp add: decode_required_fields set_if_string_not_string)
      with 2 fr show ?thesis by (simp add: field_as_new_def key_neq)
    next
      case 3
      with assms(2,3) have "Source (decode_required (Attribute r) New) = Source New"
        by (simp add: decode_required_fields set_if_string_not_string)
      with 3 fr show ?thesis by (simp add: field_as_new_def key_neq)
    next
      case 4
      with assms(2,3) have "Type (decode_required (Attribute r) New) = Type New"
        by (simp add: decode_required_fields set_if_string_not_string)
      with 4 fr show ?thesis by (simp add: field_as_new_def key_neq)
    qed
    with FromAvro_no_reserved_extension [OF ok res] show ?thesis by simp
  qed
  from eq fld show ?thesis by blast
qed

theorem FromAvro_required_not_string_witness:
  "id_key \<in> required_names \<and>
   map_of (Attribute odd_required_record) id_key = Some (VInt 7) \<and>
   \<not> is_string (VInt 7) \<and>
   FromAvro demo_lib odd_required_record =
     Inr (New\<lparr>Source := ''s'', Extensions := [(''x'', VBool True)]\<rparr>) \<and>
   FromAvro demo_lib (odd_required_record\<lparr>Attribute := [(''source'', VString ''s''), (''x'', VBool True)]\<rparr>) =
     Inr (New\<lparr>Source := ''s'', Extensions := [(''x'', VBool True)]\<rparr>) \<and>
   ID (New\<lparr>Source := ''s'', Extensions := [(''x'', VBool True)]\<rparr>) = '''' \<and>
   field_as_new id_key (New\<lparr>Source := ''s'', Extensions := [(''x'', VBool True)]\<rparr>) \<and>
   id_key \<notin> fst ` set (Extensions (New\<lparr>Source := ''s'', Extensions := [(''x'', VBool True)]\<rparr>))"
  using FromAvro_required_not_string [of id_key odd_required_record "VInt 7" demo_lib]
  by (simp add: decode_defs odd_required_record_def New_def demo_defs key_defs
      required_names_def field_as_new_def)

lemma only_entry:
  assumes "distinct (map fst as)" and "map_of as n = Some v"
  shows "\<forall>a \<in> set as. fst a = n \<longrightarrow> snd a = v"
proof
  fix a assume a: "a \<in> set as"
  show "fst a = n \<longrightarrow> snd a = v"
  proof
    assume "fst a = n"
    with a have "(n, snd a) \<in> set as" by force
    with assms(1) have "map_of as n = Some (snd a)" by (rule map_of_is_SomeI)
    with assms(2) show "snd a = v" by simp
  qed
qed

lemma decode_attribute_parse_indep:
  assumes "\<not> (fst a = time \<and> is_string (snd a))"
  shows "decode_attribute (l\<lparr>time_Parse_Nano := p, time_Parse := q\<rparr>) a e = decode_attribute l a e"
proof (cases a)
  case (Pair n v)
  show ?thesis
  proof (cases n rule: name_cases)
    case 5
    with assms Pair have "\<not> is_string v" by simp
    then have "decode_attribute l' (time, v) e = Inr e" for l'
      by (cases v) (simp_all add: step_time)
    with 5 Pair show ?thesis by simp
  qed (simp_all add: Pair step_required step_datacontenttype step_dataschema step_subject
        step_extension)
qed

lemma decode_attributes_parse_indep:
  "\<forall>a \<in> set as. \<not> (fst a = time \<and> is_string (snd a)) \<Longrightarrow>
   decode_attributes (l\<lparr>time_Parse_Nano := p, time_Parse := q\<rparr>) as e = decode_attributes l as e"
  by (induction as arbitrary: e) (simp_all add: decode_attribute_parse_indep split: sum.splits)

lemma decode_data_parse_indep:
  "decode_data (l\<lparr>time_Parse_Nano := p, time_Parse := q\<rparr>) d e = decode_data l d e"
  by (cases d) (simp_all add: decode_data_alt split: option.splits)

lemma FromAvro_parse_indep:
  assumes "\<forall>a \<in> set (Attribute r). \<not> (fst a = time \<and> is_string (snd a))"
  shows "FromAvro (l\<lparr>time_Parse_Nano := p, time_Parse := q\<rparr>) r = FromAvro l r"
  by (simp add: FromAvro_def decode_attributes_parse_indep [OF assms] decode_data_parse_indep
      split: sum.splits)

lemma loop_optional_fields:
  assumes "distinct (map fst as)" and "decode_attributes l as e0 = Inr e"
  shows
    "DataContentType e =
       (case map_of as datacontenttype of
          Some v \<Rightarrow> (case v of VString s \<Rightarrow> s | _ \<Rightarrow> DataContentType e0)
        | None \<Rightarrow> DataContentType e0)"
    "DataSchema e =
       (case map_of as dataschema of
          Some v \<Rightarrow> (case v of VString s \<Rightarrow> s | _ \<Rightarrow> DataSchema e0)
        | None \<Rightarrow> DataSchema e0)"
    "Subject e =
       (case map_of as subject of
          Some v \<Rightarrow> (case v of VString s \<Rightarrow> s | _ \<Rightarrow> Subject e0)
        | None \<Rightarrow> Subject e0)"
    "Time e =
       (case map_of as time of
          Some v \<Rightarrow>
            (case v of
               VString s \<Rightarrow> (case parse_time l s of Inr t \<Rightarrow> t | Inl _ \<Rightarrow> Time e0)
             | _ \<Rightarrow> Time e0)
        | None \<Rightarrow> Time e0)"
proof -
  show "DataContentType e =
       (case map_of as datacontenttype of
          Some v \<Rightarrow> (case v of VString s \<Rightarrow> s | _ \<Rightarrow> DataContentType e0)
        | None \<Rightarrow> DataContentType e0)"
    by (rule loop_field [where f = DataContentType and k = datacontenttype
          and g = "\<lambda>v x. case v of VString s \<Rightarrow> s | _ \<Rightarrow> x", OF _ assms])
       (rule step_DataContentType)
  show "DataSchema e =
       (case map_of as dataschema of
          Some v \<Rightarrow> (case v of VString s \<Rightarrow> s | _ \<Rightarrow> DataSchema e0)
        | None \<Rightarrow> DataSchema e0)"
    by (rule loop_field [where f = DataSchema and k = dataschema
          and g = "\<lambda>v x. case v of VString s \<Rightarrow> s | _ \<Rightarrow> x", OF _ assms])
       (rule step_DataSchema)
  show "Subject e =
       (case map_of as subject of
          Some v \<Rightarrow> (case v of VString s \<Rightarrow> s | _ \<Rightarrow> Subject e0)
        | None \<Rightarrow> Subject e0)"
    by (rule loop_field [where f = Subject and k = subject
          and g = "\<lambda>v x. case v of VString s \<Rightarrow> s | _ \<Rightarrow> x", OF _ assms])
       (rule step_Subject)
  show "Time e =
       (case map_of as time of
          Some v \<Rightarrow>
            (case v of
               VString s \<Rightarrow> (case parse_time l s of Inr t \<Rightarrow> t | Inl _ \<Rightarrow> Time e0)
             | _ \<Rightarrow> Time e0)
        | None \<Rightarrow> Time e0)"
    by (rule loop_field [where f = Time and k = time
          and g = "\<lambda>v x. case v of
                     VString s \<Rightarrow> (case parse_time l s of Inr t \<Rightarrow> t | Inl _ \<Rightarrow> x)
                   | _ \<Rightarrow> x", OF _ assms])
       (rule step_Time)
qed

lemma not_string_case:
  "\<not> is_string v \<Longrightarrow> (case v of VString s \<Rightarrow> f s | _ \<Rightarrow> x) = x"
  by (cases v) simp_all

text \<open>
  Claim C10. Let the record, a map with one entry per key, have under one of the four
  optional names (\<open>datacontenttype\<close>, \<open>dataschema\<close>, \<open>subject\<close>, \<open>time\<close>) a value that is
  not a string. Then \<open>FromAvro\<close> does with the record exactly what it does with the
  record without that entry, so the entry causes no error; if an event is returned, the
  field of that name is as in a fresh event and the event has no extension of that
  name. Under \<open>time\<close> there is no attempt to parse: the result is the same whatever the
  two parsing functions are, be it functions that always fail.
\<close>

theorem FromAvro_optional_not_string:
  assumes "name \<in> optional_names" and "distinct (map fst (Attribute r))"
    and "map_of (Attribute r) name = Some v" and "\<not> is_string v"
  shows "FromAvro l r = FromAvro l (r\<lparr>Attribute := AList.delete name (Attribute r)\<rparr>) \<and>
         (\<forall>e. FromAvro l r = Inr e \<longrightarrow>
            field_as_new name e \<and> name \<notin> fst ` set (Extensions e)) \<and>
         (name = time \<longrightarrow>
            (\<forall>p q. FromAvro (l\<lparr>time_Parse_Nano := p, time_Parse := q\<rparr>) r = FromAvro l r))"
proof -
  have res: "name \<in> reserved_names"
    using assms(1) by (simp add: reserved_names_def)
  have ent: "\<forall>a \<in> set (Attribute r). fst a = name \<longrightarrow> \<not> is_string (snd a)"
    using only_entry [OF assms(2,3)] assms(4) by auto
  have eq: "FromAvro l r = FromAvro l (r\<lparr>Attribute := AList.delete name (Attribute r)\<rparr>)"
    using FromAvro_delete [OF res ent] by simp
  have fld: "field_as_new name e \<and> name \<notin> fst ` set (Extensions e)" if ok: "FromAvro l r = Inr e" for e
  proof -
    from FromAvro_Inr [OF ok] obtain e1 where
      l: "decode_attributes l (Attribute r) (decode_required (Attribute r) New) = Inr e1"
      and d: "decode_data l (Data r) e1 = Inr e" by blast
    note fr = decode_data_frame [OF d] decode_required_frame
    note lo = loop_optional_fields [OF assms(2) l]
    from assms(1) consider "name = datacontenttype" | "name = dataschema" | "name = subject"
      | "name = time"
      by (auto simp: optional_names_def)
    then have "field_as_new name e"
    proof cases
      case 1
      with assms(3,4) lo(1) have "DataContentType e1 = DataContentType New"
        by (simp add: not_string_case fr)
      with 1 fr show ?thesis by (simp add: field_as_new_def key_neq)
    next
      case 2
      with assms(3,4) lo(2) have "DataSchema e1 = DataSchema New"
        by (simp add: not_string_case fr)
      with 2 fr show ?thesis by (simp add: field_as_new_def key_neq)
    next
      case 3
      with assms(3,4) lo(3) have "Subject e1 = Subject New"
        by (simp add: not_string_case fr)
      with 3 fr show ?thesis by (simp add: field_as_new_def key_neq)
    next
      case 4
      with assms(3,4) lo(4) have "Time e1 = Time New"
        by (simp add: not_string_case fr)
      with 4 fr show ?thesis by (simp add: field_as_new_def key_neq)
    qed
    with FromAvro_no_reserved_extension [OF ok res] show ?thesis by simp
  qed
  have par: "FromAvro (l\<lparr>time_Parse_Nano := p, time_Parse := q\<rparr>) r = FromAvro l r"
    if "name = time" for p q
    using ent that by (intro FromAvro_parse_indep) auto
  from eq fld par show ?thesis by blast
qed

theorem FromAvro_optional_not_string_witness:
  "subject \<in> optional_names \<and> time \<in> optional_names \<and>
   distinct (map fst (Attribute odd_optional_record)) \<and>
   map_of (Attribute odd_optional_record) subject = Some (VBool True) \<and>
   \<not> is_string (VBool True) \<and>
   map_of (Attribute odd_optional_record) time = Some (VInt 5) \<and>
   \<not> is_string (VInt 5) \<and>
   FromAvro demo_lib odd_optional_record = Inr (New\<lparr>ID := ''a''\<rparr>) \<and>
   FromAvro demo_lib (odd_optional_record\<lparr>Attribute := [(''id'', VString ''a''), (''time'', VInt 5)]\<rparr>) =
     Inr (New\<lparr>ID := ''a''\<rparr>) \<and>
   FromAvro demo_lib (odd_optional_record\<lparr>Attribute := [(''id'', VString ''a''), (''subject'', VBool True)]\<rparr>) =
     Inr (New\<lparr>ID := ''a''\<rparr>) \<and>
   Subject (New\<lparr>ID := ''a''\<rparr>) = '''' \<and> Time (New\<lparr>ID := ''a''\<rparr>) = zeroTime \<and>
   field_as_new subject (New\<lparr>ID := ''a''\<rparr>) \<and> field_as_new time (New\<lparr>ID := ''a''\<rparr>) \<and>
   subject \<notin> fst ` set (Extensions (New\<lparr>ID := ''a''\<rparr>)) \<and>
   time \<notin> fst ` set (Extensions (New\<lparr>ID := ''a''\<rparr>)) \<and>
   FromAvro (demo_lib\<lparr>time_Parse_Nano := (\<lambda>s. Inr sample_time), time_Parse := (\<lambda>s. Inr sample_time)\<rparr>)
     odd_optional_record = Inr (New\<lparr>ID := ''a''\<rparr>)"
  using FromAvro_optional_not_string [of subject odd_optional_record "VBool True" demo_lib]
    FromAvro_optional_not_string [of time odd_optional_record "VInt 5" demo_lib]
  by (simp add: decode_defs odd_optional_record_def New_def demo_defs key_defs
      optional_names_def field_as_new_def)

subsection \<open>Decoding: the payload\<close>

lemma payload_cases:
  assumes "decode_data l d e1 = Inr e" and "DataEncoded e1 = None"
  shows "(\<forall>b. d = VBytes b \<longrightarrow> DataEncoded e = b) \<and>
         (\<forall>s. d = VString s \<longrightarrow> DataEncoded e = Some (bytes_of_string s)) \<and>
         (\<forall>m. d = VMap m \<longrightarrow>
            (\<forall>b. wrapped_bytes m = Some b \<longrightarrow> DataEncoded e = b) \<and>
            (wrapped_bytes m = None \<longrightarrow>
               (\<forall>s. wrapped_string m = Some s \<longrightarrow> DataEncoded e = Some (bytes_of_string s)) \<and>
               (wrapped_string m = None \<longrightarrow>
                  (\<exists>j. json_Marshal l m = Inr j \<and> DataEncoded e = Some j)))) \<and>
         ((\<forall>b. d \<noteq> VBytes b) \<and> (\<forall>s. d \<noteq> VString s) \<and> (\<forall>m. d \<noteq> VMap m) \<longrightarrow>
            DataEncoded e = None)"
  using assms
  by (cases d) (auto simp: decode_data_alt split: option.splits sum.splits)

lemma payload_total:
  "(\<forall>m err. d = VMap m \<and> wrapped_bytes m = None \<and> wrapped_string m = None \<and>
        json_Marshal l m = Inl err \<longrightarrow> decode_data l d e1 = Inl (MarshalMapDataError err)) \<and>
   ((\<forall>m. d = VMap m \<and> wrapped_bytes m = None \<and> wrapped_string m = None \<longrightarrow>
        (\<exists>j. json_Marshal l m = Inr j)) \<longrightarrow> (\<exists>e. decode_data l d e1 = Inr e))"
  by (cases d) (auto simp: decode_data_alt split: option.splits sum.splits)

text \<open>
  Claim C3. Whenever \<open>FromAvro\<close> returns an event, its payload is determined by the
  payload slot of the record alone: a byte sequence is the payload as it is; of a string
  the payload is its bytes; of a map, the payload is the byte sequence under \<^verbatim>\<open>bytes\<close>
  if there is one, else the bytes of the string under \<^verbatim>\<open>string\<close> if there is one, else
  the JSON text of the whole map; for every other slot (nil among them) the payload is
  unset. And when all attributes decode, \<open>FromAvro\<close> fails on account of the payload only
  if the map has to be written as JSON and \<^verbatim>\<open>json.Marshal\<close> fails, with the error
  "failed to marshal map data"; otherwise it returns an event.
\<close>

theorem FromAvro_payload:
  "(FromAvro l r = Inr e \<longrightarrow>
      (\<forall>b. Data r = VBytes b \<longrightarrow> DataEncoded e = b) \<and>
      (\<forall>s. Data r = VString s \<longrightarrow> DataEncoded e = Some (bytes_of_string s)) \<and>
      (\<forall>m. Data r = VMap m \<longrightarrow>
         (\<forall>b. wrapped_bytes m = Some b \<longrightarrow> DataEncoded e = b) \<and>
         (wrapped_bytes m = None \<longrightarrow>
            (\<forall>s. wrapped_string m = Some s \<longrightarrow> DataEncoded e = Some (bytes_of_string s)) \<and>
            (wrapped_string m = None \<longrightarrow>
               (\<exists>j. json_Marshal l m = Inr j \<and> DataEncoded e = Some j)))) \<and>
      ((\<forall>b. Data r \<noteq> VBytes b) \<and> (\<forall>s. Data r \<noteq> VString s) \<and> (\<forall>m. Data r \<noteq> VMap m) \<longrightarrow>
         DataEncoded e = None)) \<and>
   ((\<forall>a \<in> set (Attribute r). decodes l a) \<longrightarrow>
      (\<forall>m err. Data r = VMap m \<and> wrapped_bytes m = None \<and> wrapped_string m = None \<and>
         json_Marshal l m = Inl err \<longrightarrow> FromAvro l r = Inl (MarshalMapDataError err)) \<and>
      ((\<forall>m. Data r = VMap m \<and> wrapped_bytes m = None \<and> wrapped_string m = None \<longrightarrow>
          (\<exists>j. json_Marshal l m = Inr j)) \<longrightarrow> (\<exists>e'. FromAvro l r = Inr e')))"
proof (rule conjI)
  show "FromAvro l r = Inr e \<longrightarrow>
      (\<forall>b. Data r = VBytes b \<longrightarrow> DataEncoded e = b) \<and>
      (\<forall>s. Data r = VString s \<longrightarrow> DataEncoded e = Some (bytes_of_string s)) \<and>
      (\<forall>m. Data r = VMap m \<longrightarrow>
         (\<forall>b. wrapped_bytes m = Some b \<longrightarrow> DataEncoded e = b) \<and>
         (wrapped_bytes m = None \<longrightarrow>
            (\<forall>s. wrapped_string m = Some s \<longrightarrow> DataEncoded e = Some (bytes_of_string s)) \<and>
            (wrapped_string m = None \<longrightarrow>
               (\<exists>j. json_Marshal l m = Inr j \<and> DataEncoded e = Some j)))) \<and>
      ((\<forall>b. Data r \<noteq> VBytes b) \<and> (\<forall>s. Data r \<noteq> VString s) \<and> (\<forall>m. Data r \<noteq> VMap m) \<longrightarrow>
         DataEncoded e = None)"
  proof
    assume ok: "FromAvro l r = Inr e"
    from FromAvro_Inr [OF ok] obtain e1 where
      l: "decode_attributes l (Attribute r) (decode_required (Attribute r) New) = Inr e1"
      and d: "decode_data l (Data r) e1 = Inr e" by blast
    have "DataEncoded e1 = None"
      using loop_required_fields(5) [OF l] by (simp add: decode_required_frame New_def)
    with d show "(\<forall>b. Data r = VBytes b \<longrightarrow> DataEncoded e = b) \<and>
      (\<forall>s. Data r = VString s \<longrightarrow> DataEncoded e = Some (bytes_of_string s)) \<and>
      (\<forall>m. Data r = VMap m \<longrightarrow>
         (\<forall>b. wrapped_bytes m = Some b \<longrightarrow> DataEncoded e = b) \<and>
         (wrapped_bytes m = None \<longrightarrow>
            (\<forall>s. wrapped_string m = Some s \<longrightarrow> DataEncoded e = Some (bytes_of_string s)) \<and>
            (wrapped_string m = None \<longrightarrow>
               (\<exists>j. json_Marshal l m = Inr j \<and> DataEncoded e = Some j)))) \<and>
      ((\<forall>b. Data r \<noteq> VBytes b) \<and> (\<forall>s. Data r \<noteq> VString s) \<and> (\<forall>m. Data r \<noteq> VMap m) \<longrightarrow>
         DataEncoded e = None)"
      by (rule payload_cases)
  qed
next
  show "(\<forall>a \<in> set (Attribute r). decodes l a) \<longrightarrow>
      (\<forall>m err. Data r = VMap m \<and> wrapped_bytes m = None \<and> wrapped_string m = None \<and>
         json_Marshal l m = Inl err \<longrightarrow> FromAvro l r = Inl (MarshalMapDataError err)) \<and>
      ((\<forall>m. Data r = VMap m \<and> wrapped_bytes m = None \<and> wrapped_string m = None \<longrightarrow>
          (\<exists>j. json_Marshal l m = Inr j)) \<longrightarrow> (\<exists>e'. FromAvro l r = Inr e'))"
  proof
    assume "\<forall>a \<in> set (Attribute r). decodes l a"
    then obtain e1 where
      l: "decode_attributes l (Attribute r) (decode_required (Attribute r) New) = Inr e1"
      using loop_succeeds by blast
    then have "FromAvro l r = decode_data l (Data r) e1"
      by (simp add: FromAvro_def)
    with payload_total [of "Data r" l e1]
    show "(\<forall>m err. Data r = VMap m \<and> wrapped_bytes m = None \<and> wrapped_string m = None \<and>
         json_Marshal l m = Inl err \<longrightarrow> FromAvro l r = Inl (MarshalMapDataError err)) \<and>
      ((\<forall>m. Data r = VMap m \<and> wrapped_bytes m = None \<and> wrapped_string m = None \<longrightarrow>
          (\<exists>j. json_Marshal l m = Inr j)) \<longrightarrow> (\<exists>e'. FromAvro l r = Inr e'))"
      by simp
  qed
qed

lemmas payload_defs = data_record_def wrapped_bytes_def wrapped_string_def bytes_of_string_def

theorem FromAvro_payload_witness:
  "FromAvro demo_lib (data_record (VBytes (Some (bytes_of_string ''foo'')))) =
     Inr (New\<lparr>ID := ''a'', DataEncoded := Some (bytes_of_string ''foo'')\<rparr>) \<and>
   FromAvro demo_lib (data_record (VString ''foo'')) =
     Inr (New\<lparr>ID := ''a'', DataEncoded := Some (bytes_of_string ''foo'')\<rparr>) \<and>
   wrapped_bytes [(''bytes'', VBytes (Some (bytes_of_string ''foo'')))] =
     Some (Some (bytes_of_string ''foo'')) \<and>
   FromAvro demo_lib (data_record (VMap [(''bytes'', VBytes (Some (bytes_of_string ''foo'')))])) =
     Inr (New\<lparr>ID := ''a'', DataEncoded := Some (bytes_of_string ''foo'')\<rparr>) \<and>
   wrapped_bytes [(''string'', VString ''foo'')] = None \<and>
   wrapped_string [(''string'', VString ''foo'')] = Some ''foo'' \<and>
   FromAvro demo_lib (data_record (VMap [(''string'', VString ''foo'')])) =
     Inr (New\<lparr>ID := ''a'', DataEncoded := Some (bytes_of_string ''foo'')\<rparr>) \<and>
   wrapped_bytes [] = None \<and> wrapped_string [] = None \<and>
   json_Marshal demo_lib [] = Inr (bytes_of_string ''{}'') \<and>
   FromAvro demo_lib (data_record (VMap [])) =
     Inr (New\<lparr>ID := ''a'', DataEncoded := Some (bytes_of_string ''{}'')\<rparr>) \<and>
   FromAvro demo_lib (data_record (VInt 5)) = Inr (New\<lparr>ID := ''a''\<rparr>) \<and>
   DataEncoded (New\<lparr>ID := ''a''\<rparr>) = None \<and>
   decodes demo_lib (''id'', VString ''a'') \<and>
   json_Marshal demo_lib [(''k'', VBool True)] = Inl (LibraryError ''json: unsupported type'') \<and>
   FromAvro demo_lib (data_record (VMap [(''k'', VBool True)])) =
     Inl (MarshalMapDataError (LibraryError ''json: unsupported type''))"
  using FromAvro_payload [of demo_lib "data_record (VString ''foo'')"
      "New\<lparr>ID := ''a'', DataEncoded := Some (bytes_of_string ''foo'')\<rparr>"]
    FromAvro_payload [of demo_lib "data_record (VMap [(''k'', VBool True)])"]
  by (simp add: decode_defs decodes_def payload_defs New_def demo_defs key_defs)

subsection \<open>Decoding: extensions\<close>


lemma wire_value:
  "is_wire_value v \<Longrightarrow> \<exists>x. extensionValueFrom v = Inr x"
  by (cases v) (simp_all add: extensionValueFrom_def)

lemma loop_extension:
  assumes "k \<notin> reserved_names" and "distinct (map fst as)"
    and "decode_attributes l as e0 = Inr e"
  shows "map_of (Extensions e) k =
           (case map_of as k of
              Some v \<Rightarrow> (case extensionValueFrom v of
                          Inr x \<Rightarrow> Some x | Inl _ \<Rightarrow> map_of (Extensions e0) k)
            | None \<Rightarrow> map_of (Extensions e0) k)"
  by (rule loop_field [where f = "\<lambda>e. map_of (Extensions e) k" and k = k
        and g = "\<lambda>v x. case extensionValueFrom v of Inr y \<Rightarrow> Some y | Inl _ \<Rightarrow> x",
        OF _ assms(2,3)])
     (rule step_Extensions [OF _ assms(1)])

lemma extension_decodes:
  assumes "k \<notin> reserved_names"
  shows "decodes l (k, v) \<longleftrightarrow> (\<exists>x. extensionValueFrom v = Inr x)"
  by (auto simp: decodes_def step_extension [OF assms] split: sum.splits)






subsection \<open>Encoding, then decoding\<close>

lemma record_map:
  assumes names: "fst ` set (Extensions e) \<inter> reserved_names = {}"
    and dist: "distinct (map fst (Extensions e))"
    and vals: "\<forall>a \<in> set (Extensions e).
                 is_attribute_value (snd a) \<and> types_Validate l (snd a) = Inr (snd a)"
    and r: "ToAvro l e = Inr r"
  shows "distinct (map fst (Attribute r))"
    and "\<And>k. k \<in> reserved_names \<Longrightarrow>
           map_of (Attribute r) k = map_of (Attribute (encode_attributes l e)) k"
    and "\<And>k v. (k, v) \<in> set (Extensions e) \<Longrightarrow>
           \<exists>a. map_of (Attribute r) k = Some a \<and> extensionValueFrom a = Inr (coerced l v)"
    and "\<And>k. k \<notin> reserved_names \<Longrightarrow> k \<notin> fst ` set (Extensions e) \<Longrightarrow>
           map_of (Attribute r) k = None"
    and "Data r = (case DataEncoded e of None \<Rightarrow> VNil | Some d \<Rightarrow> VBytes (Some d))"
proof -
  from ToAvro_Inr [OF r] obtain r0 where
    r0: "encode_extensions l (Extensions e) (encode_attributes l e) = Inr r0"
    and a: "Attribute r = Attribute r0"
    and d: "Data r = (case DataEncoded e of None \<Rightarrow> VNil | Some d \<Rightarrow> VBytes (Some d))"
    by blast
  show "distinct (map fst (Attribute r))"
    using encode_distinct [OF r0 encode_attributes_distinct] a by simp
  show "map_of (Attribute r) k = map_of (Attribute (encode_attributes l e)) k"
    if "k \<in> reserved_names" for k
  proof -
    from that names have "k \<notin> fst ` set (Extensions e)" by blast
    from encode_other [OF r0 this] a show ?thesis by simp
  qed
  show "\<exists>a. map_of (Attribute r) k = Some a \<and> extensionValueFrom a = Inr (coerced l v)"
    if kv: "(k, v) \<in> set (Extensions e)" for k v
  proof -
    from encode_entry [OF r0 dist kv] obtain x where
      x: "attributeValueFor l v = Inr x" and m: "map_of (Attribute r0) k = Some x" by blast
    from vals kv have "is_attribute_value v" "types_Validate l v = Inr v" by auto
    from attribute_roundtrip [OF this] x have "extensionValueFrom x = Inr (coerced l v)" by auto
    with m a show ?thesis by simp
  qed
  show "map_of (Attribute r) k = None"
    if "k \<notin> reserved_names" "k \<notin> fst ` set (Extensions e)" for k
    using encode_other [OF r0 that(2)] encode_attributes_reserved [OF that(1)] a by simp
  show "Data r = (case DataEncoded e of None \<Rightarrow> VNil | Some d \<Rightarrow> VBytes (Some d))"
    by (rule d)
qed

lemma string_attribute_decodes:
  "decodes l (datacontenttype, v)" "decodes l (dataschema, v)" "decodes l (subject, v)"
  by (cases v; simp add: decodes_def step_datacontenttype step_dataschema step_subject)+

lemma time_decodes:
  "parse_time l s = Inr t \<Longrightarrow> decodes l (time, VString s)"
  by (simp add: decodes_def step_time)

lemma record_decodes:
  assumes names: "fst ` set (Extensions e) \<inter> reserved_names = {}"
    and dist: "distinct (map fst (Extensions e))"
    and vals: "\<forall>a \<in> set (Extensions e).
                 is_attribute_value (snd a) \<and> types_Validate l (snd a) = Inr (snd a)"
    and tm: "Time e \<noteq> zeroTime \<longrightarrow>
               (\<exists>t. parse_time l (time_Format l (Time e)) = Inr t \<and> Equal t (Time e))"
    and r: "ToAvro l e = Inr r"
  shows "\<forall>a \<in> set (Attribute r). decodes l a"
proof
  fix a assume a: "a \<in> set (Attribute r)"
  obtain k x where kx: "a = (k, x)" by (cases a)
  note rm = record_map [OF names dist vals r]
  from a kx rm(1) have m: "map_of (Attribute r) k = Some x"
    by (simp add: map_of_is_SomeI)
  show "decodes l a"
  proof (cases k rule: name_cases)
    case 1
    then show ?thesis by (simp add: kx decodes_def step_required)
  next
    case 2
    then show ?thesis by (simp add: kx string_attribute_decodes)
  next
    case 3
    then show ?thesis by (simp add: kx string_attribute_decodes)
  next
    case 4
    then show ?thesis by (simp add: kx string_attribute_decodes)
  next
    case 5
    then have "k \<in> reserved_names" by (simp add: reserved_iff)
    from rm(2) [OF this] m 5
    have "Time e \<noteq> zeroTime \<and> x = VString (time_Format l (Time e))"
      by (simp add: encode_attributes_map key_neq split: if_splits)
    with tm obtain t where "parse_time l (time_Format l (Time e)) = Inr t"
      and "x = VString (time_Format l (Time e))" by blast
    with 5 kx show ?thesis by (simp add: time_decodes)
  next
    case 6
    have "k \<in> fst ` set (Extensions e)"
    proof (rule ccontr)
      assume "k \<notin> fst ` set (Extensions e)"
      from rm(4) [OF 6 this] m show False by simp
    qed
    then obtain v where "(k, v) \<in> set (Extensions e)" by force
    from rm(3) [OF this] m have "\<exists>y. extensionValueFrom x = Inr y" by auto
    with 6 kx show ?thesis by (simp add: extension_decodes)
  qed
qed

lemma Equal_refl: "Equal t t"
  by (simp add: Equal_def)

text \<open>
  Claim C1. Let the extensions of an event have distinct names, none of them one of the
  eight attribute names, and values of the seven attribute types (boolean, 32-bit
  integer, string, byte sequence, URI, URI-reference, timestamp) that validation hands
  on as they are; and let the time of the event, if it is not the zero time, be one
  whose formatted text parses to the same instant. Then \<open>ToAvro\<close> returns a record, and
  \<open>FromAvro\<close> of that record, in whatever order its attributes are visited, returns an
  event with the same specification version, id, source and type, the same content
  type, schema and subject, a time that is the same instant, under every extension name
  of the event the value after coercion (a URI or URI-reference as its string, a
  timestamp as its text, everything else as it was), no extension besides, and the same
  payload.
\<close>

theorem FromAvro_ToAvro:
  assumes names: "fst ` set (Extensions e) \<inter> reserved_names = {}"
    and dist: "distinct (map fst (Extensions e))"
    and vals: "\<forall>a \<in> set (Extensions e).
                 is_attribute_value (snd a) \<and> types_Validate l (snd a) = Inr (snd a)"
    and tm: "Time e \<noteq> zeroTime \<longrightarrow>
               (\<exists>t. parse_time l (time_Format l (Time e)) = Inr t \<and> Equal t (Time e))"
  shows "\<exists>r. ToAvro l e = Inr r \<and>
           (\<forall>r'. distinct (map fst (Attribute r')) \<and> set (Attribute r') = set (Attribute r) \<and>
                 Data r' = Data r \<longrightarrow>
              (\<exists>e'. FromAvro l r' = Inr e' \<and>
                 SpecVersion e' = SpecVersion e \<and> ID e' = ID e \<and> Source e' = Source e \<and>
                 Type e' = Type e \<and> DataContentType e' = DataContentType e \<and>
                 DataSchema e' = DataSchema e \<and> Subject e' = Subject e \<and>
                 Equal (Time e') (Time e) \<and>
                 (\<forall>a \<in> set (Extensions e).
                    map_of (Extensions e') (fst a) = Some (coerced l (snd a))) \<and>
                 fst ` set (Extensions e') = fst ` set (Extensions e) \<and>
                 DataEncoded e' = DataEncoded e))"
proof -
  have "\<forall>a \<in> set (Extensions e). encodes l (snd a)"
    using vals supported_encoded by blast
  then obtain r where r: "ToAvro l e = Inr r"
    using ToAvro_succeeds by blast
  note rm = record_map [OF names dist vals r]
  have rt: "\<exists>e'. FromAvro l r' = Inr e' \<and>
                 SpecVersion e' = SpecVersion e \<and> ID e' = ID e \<and> Source e' = Source e \<and>
                 Type e' = Type e \<and> DataContentType e' = DataContentType e \<and>
                 DataSchema e' = DataSchema e \<and> Subject e' = Subject e \<and>
                 Equal (Time e') (Time e) \<and>
                 (\<forall>a \<in> set (Extensions e).
                    map_of (Extensions e') (fst a) = Some (coerced l (snd a))) \<and>
                 fst ` set (Extensions e') = fst ` set (Extensions e) \<and>
                 DataEncoded e' = DataEncoded e"
    if d': "distinct (map fst (Attribute r'))" and s': "set (Attribute r') = set (Attribute r)"
      and data: "Data r' = Data r" for r'
  proof -
    have mo: "map_of (Attribute r') = map_of (Attribute r)"
      using map_of_inject_set [OF d' rm(1)] s' by simp
    have res: "map_of (Attribute r') k = map_of (Attribute (encode_attributes l e)) k"
      if "k \<in> reserved_names" for k
      using rm(2) [OF that] mo by simp
    have "\<forall>a \<in> set (Attribute r'). decodes l a"
      using record_decodes [OF names dist vals tm r] s' by simp
    then obtain e1 where
      lp: "decode_attributes l (Attribute r') (decode_required (Attribute r') New) = Inr e1"
      using loop_succeeds by blast
    let ?e0 = "decode_required (Attribute r') New"
    define e' where "e' = e1\<lparr>DataEncoded := DataEncoded e\<rparr>"
    have de1: "DataEncoded e1 = None"
      using loop_required_fields(5) [OF lp] by (simp add: decode_required_frame New_def)
    have dd: "decode_data l (Data r') e1 = Inr e'"
      using rm(5) data de1 by (cases "DataEncoded e") (simp_all add: decode_data_def e'_def)
    have ok: "FromAvro l r' = Inr e'"
      using lp dd by (simp add: FromAvro_def)
    note lr = loop_required_fields [OF lp]
    note lo = loop_optional_fields [OF d' lp]
    have f1: "SpecVersion e' = SpecVersion e"
      using lr(1) res [of specversion]
      by (simp add: e'_def decode_required_fields reserved_iff encode_attributes_map
          set_if_string_string setter_defs)
    have f2: "ID e' = ID e"
      using lr(2) res [of id_key]
      by (simp add: e'_def decode_required_fields reserved_iff encode_attributes_map key_neq
          set_if_string_string setter_defs)
    have f3: "Source e' = Source e"
      using lr(3) res [of source]
      by (simp add: e'_def decode_required_fields reserved_iff encode_attributes_map key_neq
          set_if_string_string setter_defs)
    have f4: "Type e' = Type e"
      using lr(4) res [of typ_key]
      by (simp add: e'_def decode_required_fields reserved_iff encode_attributes_map key_neq
          set_if_string_string setter_defs)
    have f5: "DataContentType e' = DataContentType e"
      using lo(1) res [of datacontenttype]
      by (simp add: e'_def decode_required_frame reserved_iff encode_attributes_map key_neq
          New_def)
    have f6: "DataSchema e' = DataSchema e"
      using lo(2) res [of dataschema]
      by (simp add: e'_def decode_required_frame reserved_iff encode_attributes_map key_neq
          New_def)
    have f7: "Subject e' = Subject e"
      using lo(3) res [of subject]
      by (simp add: e'_def decode_required_frame reserved_iff encode_attributes_map key_neq
          New_def)
    have f8: "Equal (Time e') (Time e)"
    proof (cases "Time e = zeroTime")
      case True
      with lo(4) res [of time] have "Time e1 = zeroTime"
        by (simp add: decode_required_frame reserved_iff encode_attributes_map key_neq New_def)
      with True show ?thesis by (simp add: e'_def Equal_refl)
    next
      case False
      with tm obtain t where t: "parse_time l (time_Format l (Time e)) = Inr t"
        and eq: "Equal t (Time e)" by blast
      from False lo(4) res [of time] t have "Time e1 = t"
        by (simp add: decode_required_frame reserved_iff encode_attributes_map key_neq New_def)
      with eq show ?thesis by (simp add: e'_def)
    qed
    have ext: "map_of (Extensions e1) k =
                 (case map_of (Attribute r) k of
                    Some v \<Rightarrow> (case extensionValueFrom v of Inr x \<Rightarrow> Some x | Inl _ \<Rightarrow> None)
                  | None \<Rightarrow> None)"
      if "k \<notin> reserved_names" for k
      using loop_extension [OF that d' lp] mo
      by (simp add: decode_required_frame New_def split: option.splits sum.splits)
    have f9: "\<forall>a \<in> set (Extensions e). map_of (Extensions e') (fst a) = Some (coerced l (snd a))"
    proof
      fix a assume a: "a \<in> set (Extensions e)"
      obtain k v where kv: "a = (k, v)" by (cases a)
      from a kv names have nr: "k \<notin> reserved_names" by force
      from a kv have "(k, v) \<in> set (Extensions e)" by simp
      from rm(3) [OF this] obtain x where
        "map_of (Attribute r) k = Some x" "extensionValueFrom x = Inr (coerced l v)" by blast
      with ext [OF nr] kv show "map_of (Extensions e') (fst a) = Some (coerced l (snd a))"
        by (simp add: e'_def)
    qed
    have f10: "fst ` set (Extensions e') = fst ` set (Extensions e)"
    proof (rule set_eqI)
      fix k
      show "k \<in> fst ` set (Extensions e') \<longleftrightarrow> k \<in> fst ` set (Extensions e)"
      proof (cases "k \<in> fst ` set (Extensions e)")
        case True
        then obtain a where "a \<in> set (Extensions e)" "fst a = k" by auto
        with f9 have "map_of (Extensions e') k \<noteq> None" by auto
        with True show ?thesis by (simp add: map_of_None_iff)
      next
        case False
        have "map_of (Extensions e') k = None"
        proof (cases "k \<in> reserved_names")
          case True
          from FromAvro_no_reserved_extension [OF ok True] show ?thesis
            by (simp add: map_of_None_iff)
        next
          case nr: False
          from rm(4) [OF nr False] ext [OF nr] show ?thesis by (simp add: e'_def)
        qed
        with False show ?thesis by (simp add: map_of_None_iff)
      qed
    qed
    have f11: "DataEncoded e' = DataEncoded e"
      by (simp add: e'_def)
    from ok f1 f2 f3 f4 f5 f6 f7 f8 f9 f10 f11 show ?thesis by blast
  qed
  from r rt show ?thesis by blast
qed

theorem FromAvro_ToAvro_witness:
  "fst ` set (Extensions sample_event) \<inter> reserved_names = {} \<and>
   distinct (map fst (Extensions sample_event)) \<and>
   list_all (\<lambda>a. is_attribute_value (snd a) \<and> types_Validate demo_lib (snd a) = Inr (snd a))
     (Extensions sample_event) \<and>
   Time sample_event \<noteq> zeroTime \<and>
   parse_time demo_lib (time_Format demo_lib (Time sample_event)) = Inr sample_time \<and>
   Equal sample_time (Time sample_event) \<and>
   ToAvro demo_lib sample_event = Inr sample_record \<and>
   FromAvro demo_lib sample_record = Inr sample_decoded \<and>
   FromAvro demo_lib (sample_record\<lparr>Attribute := rev (Attribute sample_record)\<rparr>) =
     Inr (sample_decoded\<lparr>Extensions := rev (Extensions sample_decoded)\<rparr>) \<and>
   SpecVersion sample_decoded = SpecVersion sample_event \<and>
   ID sample_decoded = ID sample_event \<and>
   Source sample_decoded = Source sample_event \<and>
   Type sample_decoded = Type sample_event \<and>
   DataContentType sample_decoded = DataContentType sample_event \<and>
   DataSchema sample_decoded = DataSchema sample_event \<and>
   Subject sample_decoded = Subject sample_event \<and>
   Equal (Time sample_decoded) (Time sample_event) \<and>
   DataEncoded sample_decoded = DataEncoded sample_event \<and>
   map_of (Extensions sample_decoded) ''int'' = Some (VInt32 1) \<and>
   map_of (Extensions sample_decoded) ''uri'' = Some (VString ''https://test-uri.com'') \<and>
   coerced demo_lib (VURI \<lparr>Scheme = ''https'', Host = ''test-uri.com'', Path = ''''\<rparr>) =
     VString ''https://test-uri.com'' \<and>
   map_of (Extensions sample_decoded) ''timestamp'' =
     Some (VString ''2020-12-25T01:01:01.000000001Z'') \<and>
   fst ` set (Extensions sample_decoded) = fst ` set (Extensions sample_event) \<and>
   ToAvro demo_lib plain_event = Inr plain_record \<and>
   FromAvro demo_lib plain_record = Inr plain_event"
  using FromAvro_ToAvro [of sample_event demo_lib] FromAvro_ToAvro [of plain_event demo_lib]
  by (simp add: encode_defs decode_defs sample_event_def sample_record_def sample_decoded_def
      plain_event_def plain_record_def New_def demo_defs key_defs reserved_names_def
      required_names_def optional_names_def)

end
